theory Spec2Isabelle
  imports Complex_Main "HOL-Library.Word" "HOL-Library.AList"
begin

section \<open>JavaScript values used by the server and the client\<close>

text \<open>
  A JavaScript string is a sequence of UTF-16 code units. A literal of the source is
  written \<open>js ''...''\<close>.
\<close>

type_synonym jschar = "16 word"
type_synonym jsstring = "jschar list"

definition js :: "string \<Rightarrow> jsstring" where
  "js s = map of_char s"

text \<open>
  \<open>xs[i]\<close> is \<open>undefined\<close> (here \<open>None\<close>) outside the array; in
  \<open>xs.slice(start, end)\<close> a negative position counts from the end, and both are
  clamped to the array.
\<close>

definition js_index :: "'a list \<Rightarrow> int \<Rightarrow> 'a option" where
  "js_index xs i = (if 0 \<le> i \<and> i < int (length xs) then Some (xs ! nat i) else None)"

definition js_slice :: "'a list \<Rightarrow> int \<Rightarrow> int \<Rightarrow> 'a list" where
  "js_slice xs start end =
     (let len = int (length xs);
          from = (if start < 0 then max (len + start) 0 else min start len);
          to = (if end < 0 then max (len + end) 0 else min end len)
      in take (nat (to - from)) (drop (nat from) xs))"

section \<open>The undo/redo hook (\<open>useUndoRedo\<close>)\<close>

text \<open>
  The hook keeps two pieces of React state, \<open>history\<close> and \<open>index\<close>. A callback
  is created in a render and closes over the \<open>history\<close> and the \<open>index\<close> of that
  render; calling it queues new values for the two pieces of state (\<open>setHistory\<close>,
  \<open>setIndex\<close>). So a callback is a function of the state of its render and of the
  state queued by the callbacks called before it in the same render, and gives the state
  queued after it. The next render shows the state queued last.
\<close>

record 'a undo_state =
  history :: "'a list"
  index :: int

definition useUndoRedo :: "'a \<Rightarrow> 'a undo_state" where
  "useUndoRedo initialState = \<lparr>history = [initialState], index = 0\<rparr>"

definition state :: "'a undo_state \<Rightarrow> 'a option" where
  "state r = js_index (history r) (index r)"

definition setState :: "'a undo_state \<Rightarrow> 'a \<Rightarrow> 'a undo_state \<Rightarrow> 'a undo_state" where
  "setState r v queued =
     (let newHistory = js_slice (history r) 0 (index r + 1) @ [v]
      in if length newHistory > 50
         then (let shifted = tl newHistory
               in queued\<lparr>history := shifted, index := int (length shifted) - 1\<rparr>)
         else queued\<lparr>history := newHistory, index := int (length newHistory) - 1\<rparr>)"

definition undo :: "'a undo_state \<Rightarrow> 'a undo_state \<Rightarrow> 'a undo_state" where
  "undo r queued = (if index r > 0 then queued\<lparr>index := index r - 1\<rparr> else queued)"

definition redo :: "'a undo_state \<Rightarrow> 'a undo_state \<Rightarrow> 'a undo_state" where
  "redo r queued =
     (if index r < int (length (history r)) - 1 then queued\<lparr>index := index r + 1\<rparr>
      else queued)"

definition reset :: "'a \<Rightarrow> 'a undo_state \<Rightarrow> 'a undo_state" where
  "reset initialState queued = queued\<lparr>history := [initialState], index := 0\<rparr>"

definition canUndo :: "'a undo_state \<Rightarrow> bool" where
  "canUndo r = (index r > 0)"

definition canRedo :: "'a undo_state \<Rightarrow> bool" where
  "canRedo r = (index r < int (length (history r)) - 1)"

text \<open>
  The callbacks called during one render, in order, and the state the next render shows.
\<close>

datatype 'a callback = SetState 'a | Undo | Redo | Reset 'a

fun call :: "'a undo_state \<Rightarrow> 'a undo_state \<Rightarrow> 'a callback \<Rightarrow> 'a undo_state" where
  "call r queued (SetState v) = setState r v queued"
| "call r queued Undo = undo r queued"
| "call r queued Redo = redo r queued"
| "call r queued (Reset x) = reset x queued"

definition next_render :: "'a undo_state \<Rightarrow> 'a callback list \<Rightarrow> 'a undo_state" where
  "next_render r calls = foldl (call r) r calls"

text \<open>The invariant: the index is a position of the history, which has at most 50 entries.\<close>

definition undo_inv :: "'a undo_state \<Rightarrow> bool" where
  "undo_inv s = (0 \<le> index s \<and> index s < int (length (history s)) \<and> length (history s) \<le> 50)"

section \<open>The context block of an authoring request (\<open>buildContextBlock\<close>)\<close>

text \<open>
  The context of an authoring request. Its fields are free-form strings, each possibly
  absent (\<open>undefined\<close> or \<open>null\<close>, here \<open>None\<close>).
\<close>

record ai_context =
  kind :: "jsstring option"
  scope :: "jsstring option"
  title :: "jsstring option"
  range_f :: "jsstring option"
  focus :: "jsstring option"
  summary :: "jsstring option"
  prompt :: "jsstring option"
  draft :: "jsstring option"
  readingText :: "jsstring option"

text \<open>\<open>x ?? d\<close>: the default replaces only \<open>undefined\<close> and \<open>null\<close>.\<close>

definition nullish :: "'a option \<Rightarrow> 'a \<Rightarrow> 'a" where
  "nullish x d = (case x of None \<Rightarrow> d | Some v \<Rightarrow> v)"

text \<open>\<open>x ? `label${x}` : null\<close>: an absent or empty string is falsy.\<close>

definition optional_line :: "jsstring \<Rightarrow> jsstring option \<Rightarrow> jsstring option" where
  "optional_line label x =
     (case x of None \<Rightarrow> None | Some v \<Rightarrow> if v = [] then None else Some (label @ v))"

text \<open>\<open>.filter(Boolean)\<close> on an array of strings and \<open>null\<close>s, and \<open>.join(sep)\<close>.\<close>

definition filter_Boolean :: "jsstring option list \<Rightarrow> jsstring list" where
  "filter_Boolean xs = concat (map (\<lambda>x. case x of None \<Rightarrow> [] | Some v \<Rightarrow> if v = [] then [] else [v]) xs)"

fun js_join :: "jsstring \<Rightarrow> jsstring list \<Rightarrow> jsstring" where
  "js_join sep [] = []"
| "js_join sep [x] = x"
| "js_join sep (x # y # ys) = x @ sep @ js_join sep (y # ys)"

definition newline :: jschar where
  "newline = 0x0A"

definition context_lines :: "ai_context \<Rightarrow> jsstring list" where
  "context_lines c =
     filter_Boolean
       [Some (js ''Kind: '' @ nullish (kind c) (js ''unknown'')),
        Some (js ''Scope: '' @ nullish (scope c) (js ''summary'')),
        Some (js ''Title: '' @ nullish (title c) (js ''Untitled'')),
        Some (js ''Range: '' @ nullish (range_f c) (js ''n/a'')),
        optional_line (js ''Focus: '') (focus c),
        optional_line (js ''Summary: '') (summary c),
        optional_line (js ''Prompt: '') (prompt c),
        optional_line (js ''Draft: '') (draft c),
        optional_line (js ''Reading text: '') (readingText c)]"

definition buildContextBlock :: "ai_context \<Rightarrow> jsstring" where
  "buildContextBlock c = js_join [newline] (context_lines c)"

text \<open>The lines of a text: one more than its line feeds.\<close>

definition line_count :: "jsstring \<Rightarrow> nat" where
  "line_count s = Suc (length (filter (\<lambda>ch. ch = newline) s))"


section \<open>Strings: truthiness, \<open>||\<close>, \<open>trim\<close>, regular expressions\<close>

text \<open>A string or \<open>undefined\<close> is truthy when it is a non-empty string; \<open>a || b\<close>.\<close>

definition truthy :: "jsstring option \<Rightarrow> bool" where
  "truthy x = (case x of None \<Rightarrow> False | Some v \<Rightarrow> v \<noteq> [])"

definition js_or :: "jsstring option \<Rightarrow> jsstring option \<Rightarrow> jsstring option" where
  "js_or a b = (if truthy a then a else b)"

text \<open>
  \<open>String.prototype.trim\<close> removes white space and line terminators at both ends.
\<close>

definition line_terminator :: "jschar \<Rightarrow> bool" where
  "line_terminator c = (c = 0x0A \<or> c = 0x0D \<or> c = 0x2028 \<or> c = 0x2029)"

definition white_space :: "jschar \<Rightarrow> bool" where
  "white_space c =
     (c = 0x09 \<or> c = 0x0B \<or> c = 0x0C \<or> c = 0x20 \<or> c = 0xA0 \<or> c = 0x1680 \<or>
      (0x2000 \<le> c \<and> c \<le> 0x200A) \<or> c = 0x202F \<or> c = 0x205F \<or> c = 0x3000 \<or>
      c = 0xFEFF \<or> line_terminator c)"

definition js_trim :: "jsstring \<Rightarrow> jsstring" where
  "js_trim s = rev (dropWhile white_space (rev (dropWhile white_space s)))"

text \<open>
  The regular expressions of the source are sequences of literal characters, \<open>.\<close> and
  \<open>.*\<close>, all with the flag \<open>i\<close>. A literal is compared after case folding; the
  patterns are ASCII, and a code unit outside ASCII never folds to an ASCII one, so the
  folding of the ASCII letters is the part that shows. \<open>.\<close> matches any code unit but
  a line terminator. \<open>regex_test\<close> is \<open>RegExp.prototype.test\<close>: a match may start
  anywhere.
\<close>

datatype regex_item = Lit jschar | Dot | DotStar

definition canonicalize :: "jschar \<Rightarrow> jschar" where
  "canonicalize c = (if 0x61 \<le> c \<and> c \<le> 0x7A then c - 0x20 else c)"

fun match_here :: "regex_item list \<Rightarrow> jsstring \<Rightarrow> bool" where
  "match_here [] s = True"
| "match_here (Lit c # r) [] = False"
| "match_here (Lit c # r) (x # xs) = (canonicalize x = canonicalize c \<and> match_here r xs)"
| "match_here (Dot # r) [] = False"
| "match_here (Dot # r) (x # xs) = (\<not> line_terminator x \<and> match_here r xs)"
| "match_here (DotStar # r) [] = match_here r []"
| "match_here (DotStar # r) (x # xs) =
     (match_here r (x # xs) \<or> (\<not> line_terminator x \<and> match_here (DotStar # r) xs))"

fun regex_test :: "regex_item list \<Rightarrow> jsstring \<Rightarrow> bool" where
  "regex_test r [] = match_here r []"
| "regex_test r (x # xs) = (match_here r (x # xs) \<or> regex_test r xs)"

definition literal :: "string \<Rightarrow> regex_item list" where
  "literal s = map Lit (js s)"

section \<open>The OpenAI-compatible dispatch (\<open>buildModelList\<close>, \<open>isModelError\<close>, \<open>callOpenAi\<close>)\<close>

text \<open>\<open>[...new Set(xs)]\<close>: the values in the order of their first occurrence.\<close>

definition set_values :: "'a list \<Rightarrow> 'a list" where
  "set_values xs = foldl (\<lambda>seen x. if x \<in> set seen then seen else seen @ [x]) [] xs"

definition modelFallbacks :: "jsstring list" where
  "modelFallbacks = [js ''gpt-4o-mini'', js ''gpt-4o'', js ''gpt-4.1-mini'']"

text \<open>The argument is \<open>process.env.OPENAI_MODEL\<close>: a string, or \<open>undefined\<close>.\<close>

definition buildModelList :: "jsstring option \<Rightarrow> jsstring list" where
  "buildModelList OPENAI_MODEL =
     (let candidates = filter_Boolean (OPENAI_MODEL # map Some modelFallbacks)
      in set_values candidates)"

text \<open>
  A thrown value, as far as \<open>isModelError\<close> reads it: \<open>status\<close>, \<open>error.code\<close>,
  \<open>error.message\<close>, \<open>code\<close> and \<open>message\<close>, each possibly absent.
\<close>

record api_error =
  status :: "int option"
  error_code :: "jsstring option"
  error_message :: "jsstring option"
  code :: "jsstring option"
  message :: "jsstring option"

definition new_Error :: "jsstring \<Rightarrow> api_error" where
  "new_Error msg =
     \<lparr>status = None, error_code = None, error_message = None, code = None, message = Some msg\<rparr>"

definition code_of :: "api_error \<Rightarrow> jsstring option" where
  "code_of error = js_or (error_code error) (code error)"

definition message_of :: "api_error \<Rightarrow> jsstring" where
  "message_of error =
     (case js_or (js_or (error_message error) (message error)) (Some []) of
        None \<Rightarrow> [] | Some m \<Rightarrow> m)"

definition model_not_found_re :: "regex_item list" where
  "model_not_found_re = literal ''model'' @ [DotStar] @ literal ''not found''"

definition does_not_exist_re :: "regex_item list" where
  "does_not_exist_re = literal ''does not exist''"

definition isModelError :: "api_error \<Rightarrow> bool" where
  "isModelError error =
     (let status = status error; code = code_of error; message = message_of error
      in status = Some 404 \<or>
         code = Some (js ''model_not_found'') \<or>
         regex_test model_not_found_re message \<or>
         regex_test does_not_exist_re message)"

text \<open>
  The request of one chat-completion attempt and the completion it resolves to. A choice
  is kept as its \<open>message.content\<close> (\<open>None\<close> when the message or its content is
  absent or \<open>null\<close>). The client is a function of the request and of the state of the
  world \<open>'w\<close> (the provider, the network): it returns the completion or the thrown
  error, and the next state.
\<close>

record 'm create_params =
  model :: jsstring
  messages :: 'm
  temperature :: rat
  json_object :: bool

record completion =
  choices :: "jsstring option list option"

type_synonym ('m, 'w) chat_client =
  "'m create_params \<Rightarrow> 'w \<Rightarrow> (api_error + completion) \<times> 'w"

type_synonym attempt = "jsstring \<times> (api_error + completion)"

text \<open>
  The \<open>for\<close> loop of \<open>callOpenAi\<close>. It ends with a completion and the model that gave
  it (\<open>break\<close>), with an error thrown out of the loop, or with the candidates used up
  and the last model error, if any. Beside the result it returns the attempts made, in
  order, each with its outcome.
\<close>

datatype loop_end =
  Completed completion jsstring
  | Thrown api_error
  | UsedUp "api_error option"

fun try_models ::
  "('m, 'w) chat_client \<Rightarrow> 'm \<Rightarrow> bool \<Rightarrow> jsstring list \<Rightarrow> api_error option \<Rightarrow> 'w
     \<Rightarrow> loop_end \<times> attempt list \<times> 'w" where
  "try_models create msgs jsonMode [] lastError w = (UsedUp lastError, [], w)"
| "try_models create msgs jsonMode (m # rest) lastError w =
     (case create \<lparr>model = m, messages = msgs, temperature = 4 / 10, json_object = jsonMode\<rparr> w of
        (Inr completion, w') \<Rightarrow> (Completed completion m, [(m, Inr completion)], w')
      | (Inl error, w') \<Rightarrow>
          if isModelError error
          then (case try_models create msgs jsonMode rest (Some error) w' of
                  (r, attempts, w'') \<Rightarrow> (r, (m, Inl error) # attempts, w''))
          else (Thrown error, [(m, Inl error)], w'))"

text \<open>\<open>completion.choices?.[0]?.message?.content?.trim() ?? ''\<close>\<close>

definition completion_text :: "completion \<Rightarrow> jsstring" where
  "completion_text completion =
     (case choices completion of
        None \<Rightarrow> []
      | Some cs \<Rightarrow>
          (case js_index cs 0 of
             None \<Rightarrow> []
           | Some None \<Rightarrow> []
           | Some (Some content) \<Rightarrow> js_trim content))"

record openai_result =
  out_text :: jsstring
  out_model :: jsstring

text \<open>
  \<open>callOpenAi\<close> after \<open>const models = buildModelList()\<close>: the loop over the
  candidates and what follows it.
\<close>

definition dispatch ::
  "('m, 'w) chat_client \<Rightarrow> 'm \<Rightarrow> bool \<Rightarrow> jsstring list \<Rightarrow> 'w
     \<Rightarrow> (api_error + openai_result) \<times> attempt list \<times> 'w" where
  "dispatch create msgs jsonMode models w =
     (case try_models create msgs jsonMode models None w of
        (Thrown error, attempts, w') \<Rightarrow> (Inl error, attempts, w')
      | (UsedUp lastError, attempts, w') \<Rightarrow>
          (Inl (case lastError of Some e \<Rightarrow> e | None \<Rightarrow> new_Error (js ''No available model'')),
           attempts, w')
      | (Completed completion modelUsed, attempts, w') \<Rightarrow>
          (Inr \<lparr>out_text = completion_text completion, out_model = modelUsed\<rparr>, attempts, w'))"

text \<open>
  \<open>client\<close> is \<open>None\<close> when no API key is configured; \<open>OPENAI_MODEL\<close> is the
  preferred model of the environment.
\<close>

definition callOpenAi ::
  "('m, 'w) chat_client option \<Rightarrow> jsstring option \<Rightarrow> 'm \<Rightarrow> bool \<Rightarrow> 'w
     \<Rightarrow> (api_error + openai_result) \<times> attempt list \<times> 'w" where
  "callOpenAi client OPENAI_MODEL msgs jsonMode w =
     (case client of
        None \<Rightarrow> (Inl (new_Error (js ''Missing OPENAI_API_KEY'')), [], w)
      | Some create \<Rightarrow> dispatch create msgs jsonMode (buildModelList OPENAI_MODEL) w)"


text \<open>An attempt that failed with a model-unavailable error.\<close>

definition model_failure :: "attempt \<Rightarrow> bool" where
  "model_failure a = (case snd a of Inl e \<Rightarrow> isModelError e | Inr c \<Rightarrow> False)"

text \<open>
  A provider for the examples: it serves \<open>gpt-4o\<close>, answers 404 for \<open>gpt-4o-mini\<close>
  and a rate-limit error for any other model, and counts the calls.
\<close>

definition sample_client :: "(unit, nat) chat_client" where
  "sample_client params n =
     (if model params = js ''gpt-4o''
      then (Inr \<lparr>choices = Some [Some (js '' Hello. '')]\<rparr>, Suc n)
      else if model params = js ''gpt-4o-mini''
      then (Inl \<lparr>status = Some 404, error_code = None, error_message = None, code = None,
                 message = None\<rparr>, Suc n)
      else (Inl \<lparr>status = Some 429, error_code = Some (js ''rate_limit_exceeded''),
                 error_message = Some (js ''Rate limit reached''), code = None,
                 message = None\<rparr>, Suc n))"

section \<open>JSON values, \<open>JSON.parse\<close> and \<open>JSON.stringify\<close>\<close>

text \<open>
  A value that \<open>JSON.parse\<close> can give. A number is kept as its literal: doubles are
  outside this model, and no function below computes with a number (only whether it is
  zero is read, for truthiness, and whether it is finite, when it is written). An object is the list of its properties, in the order
  of their creation, and \<open>undefined\<close> is \<open>None\<close> of \<open>json option\<close>.
\<close>

datatype json =
  JNull
  | JBool bool
  | JNum jsstring
  | JStr jsstring
  | JArr "json list"
  | JObj "(jsstring \<times> json) list"

definition js_typeof :: "json option \<Rightarrow> jsstring" where
  "js_typeof x =
     (case x of
        None \<Rightarrow> js ''undefined''
      | Some JNull \<Rightarrow> js ''object''
      | Some (JBool b) \<Rightarrow> js ''boolean''
      | Some (JNum n) \<Rightarrow> js ''number''
      | Some (JStr s) \<Rightarrow> js ''string''
      | Some (JArr xs) \<Rightarrow> js ''object''
      | Some (JObj kvs) \<Rightarrow> js ''object'')"

text \<open>Decimal digits of a natural number (\<open>String(n)\<close> for an integer that is exact).\<close>

definition digit :: "nat \<Rightarrow> jschar" where
  "digit d = of_nat (48 + d)"

definition digit_value :: "jschar \<Rightarrow> nat" where
  "digit_value c = unat c - 48"

fun decimal :: "nat \<Rightarrow> jsstring" where
  "decimal n = (if n < 10 then [digit n] else decimal (n div 10) @ [digit (n mod 10)])"

declare decimal.simps [simp del]

definition is_digit :: "jschar \<Rightarrow> bool" where
  "is_digit c = (0x30 \<le> c \<and> c \<le> 0x39)"

definition digits_value :: "jsstring \<Rightarrow> nat" where
  "digits_value ds = foldl (\<lambda>a c. 10 * a + digit_value c) 0 ds"

text \<open>
  The value of a number literal is \<open>m \<times> 10\<^sup>e\<close>, up to its sign: the mantissa \<open>m\<close> is
  the integer that the digits before the exponent part write, the point left out, and
  \<open>e\<close> is the exponent written less the number of digits after the point. The literal
  denotes the double zero, the one falsy number a JSON text can give, exactly when this
  value is at most \<open>2\<^sup>-\<^sup>1\<^sup>0\<^sup>7\<^sup>5\<close>, half of the least positive double: the tie is rounded
  to zero, the even neighbour.
\<close>

definition literal_mantissa :: "jsstring \<Rightarrow> nat" where
  "literal_mantissa n =
     digits_value (filter is_digit (takeWhile (\<lambda>c. c \<noteq> 0x65 \<and> c \<noteq> 0x45) n))"

definition literal_exponent :: "jsstring \<Rightarrow> int" where
  "literal_exponent n =
     (let mantissa = takeWhile (\<lambda>c. c \<noteq> 0x65 \<and> c \<noteq> 0x45) n;
          fraction = filter is_digit (dropWhile (\<lambda>c. c \<noteq> 0x2E) mantissa);
          written =
            (case dropWhile (\<lambda>c. c \<noteq> 0x65 \<and> c \<noteq> 0x45) n of
               [] \<Rightarrow> 0
             | e # [] \<Rightarrow> 0
             | e # g # ds \<Rightarrow>
                 if g = 0x2D then - int (digits_value ds)
                 else if g = 0x2B then int (digits_value ds)
                 else int (digits_value (g # ds)))
      in written - int (length fraction))"

definition zero_literal :: "jsstring \<Rightarrow> bool" where
  "zero_literal n =
     (let m = literal_mantissa n; e = literal_exponent n
      in m = 0 \<or> (e < 0 \<and> m * 2 ^ 1075 \<le> 10 ^ nat (- e)))"

text \<open>
  The literal denotes an infinite double exactly when its value is at least
  \<open>2\<^sup>1\<^sup>0\<^sup>2\<^sup>4 - 2\<^sup>9\<^sup>7\<^sup>0\<close>, half way from the greatest finite double to \<open>2\<^sup>1\<^sup>0\<^sup>2\<^sup>4\<close>: the tie is
  rounded up, to the even neighbour.
\<close>

definition infinite_literal :: "jsstring \<Rightarrow> bool" where
  "infinite_literal n =
     (let m = literal_mantissa n; e = literal_exponent n
      in if 0 \<le> e then 2 ^ 1024 - 2 ^ 970 \<le> m * 10 ^ nat e
         else (2 ^ 1024 - 2 ^ 970) * 10 ^ nat (- e) \<le> m)"

definition js_truthy :: "json option \<Rightarrow> bool" where
  "js_truthy x =
     (case x of
        None \<Rightarrow> False
      | Some JNull \<Rightarrow> False
      | Some (JBool b) \<Rightarrow> b
      | Some (JNum n) \<Rightarrow> \<not> zero_literal n
      | Some (JStr s) \<Rightarrow> s \<noteq> []
      | Some (JArr xs) \<Rightarrow> True
      | Some (JObj kvs) \<Rightarrow> True)"

text \<open>
  \<open>x[key]\<close> for a property name that is neither an index nor \<open>length\<close> nor inherited:
  only an object has such a property.
\<close>

definition get_property :: "json option \<Rightarrow> jsstring \<Rightarrow> json option" where
  "get_property x key = (case x of Some (JObj kvs) \<Rightarrow> map_of kvs key | _ \<Rightarrow> None)"

text \<open>
  \<open>String(x)\<close>: an array is the join by commas of its elements, \<open>null\<close> among them
  giving the empty string; an object is \<open>[object Object]\<close>. For a number the text is
  that of the double the literal denotes (\<open>1e3\<close> gives \<open>1000\<close>); it is left to the
  platform, as the function \<open>numberText\<close> of the literal.
\<close>

fun js_String :: "(jsstring \<Rightarrow> jsstring) \<Rightarrow> json \<Rightarrow> jsstring" where
  "js_String numberText JNull = js ''null''"
| "js_String numberText (JBool b) = (if b then js ''true'' else js ''false'')"
| "js_String numberText (JNum n) = numberText n"
| "js_String numberText (JStr s) = s"
| "js_String numberText (JArr xs) =
     js_join (js '','')
       (map (\<lambda>x. if x = JNull then [] else js_String numberText x) xs)"
| "js_String numberText (JObj kvs) = js ''[object Object]''"

text \<open>
  \<open>{...x}\<close>: the own enumerable properties of \<open>x\<close>. Those of an array are its
  elements under their indices, those of a string its code units.
\<close>

definition spread :: "json \<Rightarrow> (jsstring \<times> json) list" where
  "spread x =
     (case x of
        JObj kvs \<Rightarrow> kvs
      | JArr xs \<Rightarrow> zip (map decimal [0..<length xs]) xs
      | JStr s \<Rightarrow> zip (map decimal [0..<length s]) (map (\<lambda>c. JStr [c]) s)
      | _ \<Rightarrow> [])"

subsection \<open>\<open>JSON.parse\<close>\<close>

text \<open>
  The text is cut into tokens, then the tokens are read by a machine with a stack of the
  arrays and objects that are open. \<open>None\<close> stands for the \<open>SyntaxError\<close> thrown.
\<close>

datatype token = LBrace | RBrace | LBracket | RBracket | Colon | Comma | Atom json

definition json_space :: "jschar \<Rightarrow> bool" where
  "json_space c = (c = 0x20 \<or> c = 0x09 \<or> c = 0x0A \<or> c = 0x0D)"

definition hex_value :: "jschar \<Rightarrow> nat option" where
  "hex_value c =
     (if 0x30 \<le> c \<and> c \<le> 0x39 then Some (unat c - 48)
      else if 0x61 \<le> c \<and> c \<le> 0x66 then Some (unat c - 87)
      else if 0x41 \<le> c \<and> c \<le> 0x46 then Some (unat c - 55)
      else None)"

definition hex4 :: "jsstring \<Rightarrow> jschar option" where
  "hex4 s =
     (case map hex_value s of
        [Some a, Some b, Some c, Some d] \<Rightarrow> Some (of_nat (((a * 16 + b) * 16 + c) * 16 + d))
      | _ \<Rightarrow> None)"

text \<open>The character after a backslash, \<open>u\<close> apart.\<close>

definition escape_char :: "jschar \<Rightarrow> jschar option" where
  "escape_char e =
     (if e = 0x22 \<or> e = 0x5C \<or> e = 0x2F then Some e
      else if e = 0x62 then Some 0x08
      else if e = 0x66 then Some 0x0C
      else if e = 0x6E then Some 0x0A
      else if e = 0x72 then Some 0x0D
      else if e = 0x74 then Some 0x09
      else None)"

text \<open>
  The rest of a string literal, after its opening quote: the string read so far, then
  the text. The result is the string and the text after the closing quote.
\<close>

fun scan_string :: "jsstring \<Rightarrow> jsstring \<Rightarrow> (jsstring \<times> jsstring) option" where
  "scan_string acc [] = None"
| "scan_string acc (c # cs) =
     (if c = 0x22 then Some (acc, cs)
      else if c = 0x5C then
        (case cs of
           [] \<Rightarrow> None
         | e # es \<Rightarrow>
             if e = 0x75 then
               (case hex4 (take 4 es) of
                  None \<Rightarrow> None
                | Some u \<Rightarrow> scan_string (acc @ [u]) (drop 4 es))
             else
               (case escape_char e of
                  None \<Rightarrow> None
                | Some x \<Rightarrow> scan_string (acc @ [x]) es))
      else if c < 0x20 then None
      else scan_string (acc @ [c]) cs)"

text \<open>
  A number literal: \<open>-?(0|[1-9][0-9]*)(\.[0-9]+)?([eE][+-]?[0-9]+)?\<close>. The tokenizer
  takes the longest run of the characters a number is made of and checks it against
  the grammar; in a JSON text no such character can follow a number.
\<close>

definition number_char :: "jschar \<Rightarrow> bool" where
  "number_char c = (is_digit c \<or> c = 0x2B \<or> c = 0x2D \<or> c = 0x2E \<or> c = 0x65 \<or> c = 0x45)"

definition valid_exponent :: "jsstring \<Rightarrow> bool" where
  "valid_exponent s =
     (case s of
        [] \<Rightarrow> True
      | e # r \<Rightarrow>
          (e = 0x65 \<or> e = 0x45) \<and>
          (let ds = (case r of [] \<Rightarrow> [] | g # r' \<Rightarrow> if g = 0x2B \<or> g = 0x2D then r' else r)
           in ds \<noteq> [] \<and> list_all is_digit ds))"

definition valid_fraction :: "jsstring \<Rightarrow> bool" where
  "valid_fraction s =
     (case s of
        [] \<Rightarrow> True
      | d # r \<Rightarrow>
          if d = 0x2E
          then takeWhile is_digit r \<noteq> [] \<and> valid_exponent (dropWhile is_digit r)
          else valid_exponent s)"

definition valid_number :: "jsstring \<Rightarrow> bool" where
  "valid_number s =
     (let s1 = (case s of [] \<Rightarrow> [] | m # r \<Rightarrow> if m = 0x2D then r else s);
          ds = takeWhile is_digit s1
      in ds \<noteq> [] \<and> (hd ds \<noteq> 0x30 \<or> length ds = 1) \<and> valid_fraction (dropWhile is_digit s1))"

lemma scan_string_shorter:
  "scan_string acc s = Some (str, rest) \<Longrightarrow> length rest < length s"
proof (induction acc s rule: scan_string.induct)
  case (1 acc)
  then show ?case by simp
next
  case (2 acc c cs)
  show ?case
  proof (cases "c = 0x22")
    case True
    with "2.prems" show ?thesis by simp
  next
    case quote: False
    show ?thesis
    proof (cases "c = 0x5C")
      case True
      with quote "2.prems" obtain e es where cs: "cs = e # es"
        by (cases cs) simp_all
      show ?thesis
      proof (cases "e = 0x75")
        case u: True
        with quote True cs "2.prems" obtain x where
          h: "hex4 (take 4 es) = Some x" and r: "scan_string (acc @ [x]) (drop 4 es) = Some (str, rest)"
          by (cases "hex4 (take 4 es)") simp_all
        from "2.IH"(1) [OF quote True cs u h r] cs show ?thesis by simp
      next
        case u: False
        with quote True cs "2.prems" obtain x where
          h: "escape_char e = Some x" and r: "scan_string (acc @ [x]) es = Some (str, rest)"
          by (cases "escape_char e") simp_all
        from "2.IH"(2) [OF quote True cs u h r] cs show ?thesis by simp
      qed
    next
      case False
      with quote "2.prems" have lo: "\<not> c < 0x20" and r: "scan_string (acc @ [c]) cs = Some (str, rest)"
        by (simp_all split: if_splits)
      from "2.IH"(3) [OF quote False lo r] show ?thesis by simp
    qed
  qed
qed

function tokenize :: "jsstring \<Rightarrow> token list option" where
  "tokenize [] = Some []"
| "tokenize (c # cs) =
     (if json_space c then tokenize cs
      else if c = 0x7B then map_option ((#) LBrace) (tokenize cs)
      else if c = 0x7D then map_option ((#) RBrace) (tokenize cs)
      else if c = 0x5B then map_option ((#) LBracket) (tokenize cs)
      else if c = 0x5D then map_option ((#) RBracket) (tokenize cs)
      else if c = 0x3A then map_option ((#) Colon) (tokenize cs)
      else if c = 0x2C then map_option ((#) Comma) (tokenize cs)
      else if c = 0x22 then
        (case scan_string [] cs of
           None \<Rightarrow> None
         | Some (str, rest) \<Rightarrow> map_option ((#) (Atom (JStr str))) (tokenize rest))
      else if c = 0x2D \<or> is_digit c then
        (let lexeme = c # takeWhile number_char cs
         in if valid_number lexeme
            then map_option ((#) (Atom (JNum lexeme))) (tokenize (dropWhile number_char cs))
            else None)
      else if take 4 (c # cs) = js ''true'' then
        map_option ((#) (Atom (JBool True))) (tokenize (drop 3 cs))
      else if take 5 (c # cs) = js ''false'' then
        map_option ((#) (Atom (JBool False))) (tokenize (drop 4 cs))
      else if take 4 (c # cs) = js ''null'' then
        map_option ((#) (Atom JNull)) (tokenize (drop 3 cs))
      else None)"
  by pat_completeness auto
termination
proof (relation "measure length")
  fix c cs x2 x y
  assume "scan_string [] cs = Some x2" "(x, y) = x2"
  then have "scan_string [] cs = Some (x, y)" by simp
  from scan_string_shorter [OF this] show "(y, c # cs) \<in> measure length" by simp
next
  fix c :: jschar and cs :: jsstring
  show "(dropWhile number_char cs, c # cs) \<in> measure length"
    by (simp add: le_imp_less_Suc length_dropWhile_le)
qed simp_all

text \<open>
  An open array with its elements so far, or an open object with its properties so far
  and the key that waits for its value. A repeated key keeps its place and takes the
  later value.
\<close>

datatype frame = InArray "json list" | InObject "(jsstring \<times> json) list" "jsstring option"

datatype expect =
  AnyValue
  | ValueOrClose
  | KeyOrClose
  | Key
  | ColonNext
  | CommaOrClose
  | End json

fun finish_value :: "json \<Rightarrow> frame list \<Rightarrow> (frame list \<times> expect) option" where
  "finish_value v [] = Some ([], End v)"
| "finish_value v (InArray xs # st) = Some (InArray (xs @ [v]) # st, CommaOrClose)"
| "finish_value v (InObject kvs (Some k) # st) =
     Some (InObject (AList.update k v kvs) None # st, CommaOrClose)"
| "finish_value v (InObject kvs None # st) = None"

fun start_value :: "token \<Rightarrow> frame list \<Rightarrow> (frame list \<times> expect) option" where
  "start_value (Atom v) st = finish_value v st"
| "start_value LBracket st = Some (InArray [] # st, ValueOrClose)"
| "start_value LBrace st = Some (InObject [] None # st, KeyOrClose)"
| "start_value t st = None"

fun read_key :: "token \<Rightarrow> frame list \<Rightarrow> (frame list \<times> expect) option" where
  "read_key (Atom (JStr k)) (InObject kvs None # st) = Some (InObject kvs (Some k) # st, ColonNext)"
| "read_key t st = None"

fun close_frame :: "token \<Rightarrow> frame list \<Rightarrow> (frame list \<times> expect) option" where
  "close_frame RBracket (InArray xs # st) = finish_value (JArr xs) st"
| "close_frame RBrace (InObject kvs None # st) = finish_value (JObj kvs) st"
| "close_frame t st = None"

fun step :: "frame list \<times> expect \<Rightarrow> token \<Rightarrow> (frame list \<times> expect) option" where
  "step (st, AnyValue) t = start_value t st"
| "step (st, ValueOrClose) t = (if t = RBracket then close_frame t st else start_value t st)"
| "step (st, KeyOrClose) t = (if t = RBrace then close_frame t st else read_key t st)"
| "step (st, Key) t = read_key t st"
| "step (st, ColonNext) t = (if t = Colon then Some (st, AnyValue) else None)"
| "step (st, CommaOrClose) t =
     (if t = Comma
      then (case st of
              InArray xs # st' \<Rightarrow> Some (st, AnyValue)
            | InObject kvs key # st' \<Rightarrow> Some (st, Key)
            | [] \<Rightarrow> None)
      else close_frame t st)"
| "step (st, End v) t = None"

fun run :: "frame list \<times> expect \<Rightarrow> token list \<Rightarrow> (frame list \<times> expect) option" where
  "run s [] = Some s"
| "run s (t # ts) = (case step s t of None \<Rightarrow> None | Some s' \<Rightarrow> run s' ts)"

definition JSON_parse :: "jsstring \<Rightarrow> json option" where
  "JSON_parse text =
     (case tokenize text of
        None \<Rightarrow> None
      | Some ts \<Rightarrow>
          (case run ([], AnyValue) ts of
             Some ([], End v) \<Rightarrow> Some v
           | _ \<Rightarrow> None))"

text \<open>
  Read from an opening brace on, the machine keeps an object at the bottom of its stack
  until it ends, and then ends with an object.
\<close>

fun object_frame :: "frame \<Rightarrow> bool" where
  "object_frame (InObject kvs key) = True"
| "object_frame (InArray xs) = False"

fun object_end :: "expect \<Rightarrow> bool" where
  "object_end (End (JObj kvs)) = True"
| "object_end e = False"

definition bottom_object :: "frame list \<times> expect \<Rightarrow> bool" where
  "bottom_object s = (if fst s = [] then object_end (snd s) else object_frame (last (fst s)))"

subsection \<open>\<open>JSON.stringify(value, null, 2)\<close>\<close>

definition hex_digit :: "nat \<Rightarrow> jschar" where
  "hex_digit d = (if d < 10 then of_nat (48 + d) else of_nat (87 + d))"

definition unicode_escape :: "jschar \<Rightarrow> jsstring" where
  "unicode_escape c =
     (let n = unat c
      in [0x5C, 0x75, hex_digit (n div 4096), hex_digit (n div 256 mod 16),
          hex_digit (n div 16 mod 16), hex_digit (n mod 16)])"

definition quote_char :: "jschar \<Rightarrow> jsstring" where
  "quote_char c =
     (if c = 0x22 then [0x5C, 0x22]
      else if c = 0x5C then [0x5C, 0x5C]
      else if c = 0x08 then [0x5C, 0x62]
      else if c = 0x0C then [0x5C, 0x66]
      else if c = 0x0A then [0x5C, 0x6E]
      else if c = 0x0D then [0x5C, 0x72]
      else if c = 0x09 then [0x5C, 0x74]
      else if c < 0x20 then unicode_escape c
      else [c])"

definition high_surrogate :: "jschar \<Rightarrow> bool" where
  "high_surrogate c = (0xD800 \<le> c \<and> c \<le> 0xDBFF)"

definition low_surrogate :: "jschar \<Rightarrow> bool" where
  "low_surrogate c = (0xDC00 \<le> c \<and> c \<le> 0xDFFF)"

text \<open>A surrogate pair is written as it is, a lone surrogate as an escape.\<close>

fun quote_units :: "jsstring \<Rightarrow> jsstring" where
  "quote_units [] = []"
| "quote_units [c] =
     (if high_surrogate c \<or> low_surrogate c then unicode_escape c else quote_char c)"
| "quote_units (c # d # cs) =
     (if high_surrogate c \<and> low_surrogate d then c # d # quote_units cs
      else if high_surrogate c \<or> low_surrogate c then unicode_escape c @ quote_units (d # cs)
      else quote_char c @ quote_units (d # cs))"

definition quote :: "jsstring \<Rightarrow> jsstring" where
  "quote s = [0x22] @ quote_units s @ [0x22]"

text \<open>
  The serialization of a value at an indentation; the gap is two spaces. A number that is
  not finite is written \<open>null\<close>, a finite one as \<open>String\<close> gives it (\<open>numberText\<close> of
  its literal).
\<close>

fun stringify :: "(jsstring \<Rightarrow> jsstring) \<Rightarrow> jsstring \<Rightarrow> json \<Rightarrow> jsstring" where
  "stringify numberText indent JNull = js ''null''"
| "stringify numberText indent (JBool b) = (if b then js ''true'' else js ''false'')"
| "stringify numberText indent (JNum n) = (if infinite_literal n then js ''null'' else numberText n)"
| "stringify numberText indent (JStr s) = quote s"
| "stringify numberText indent (JArr xs) =
     (if xs = [] then js ''[]''
      else (let inner = indent @ js ''  ''
            in js ''['' @ [newline] @ inner @
               js_join (js '','' @ [newline] @ inner) (map (stringify numberText inner) xs) @
               [newline] @ indent @ js '']''))"
| "stringify numberText indent (JObj kvs) =
     (if kvs = [] then js ''{}''
      else (let inner = indent @ js ''  ''
            in js ''{'' @ [newline] @ inner @
               js_join (js '','' @ [newline] @ inner)
                 (map (\<lambda>kv. quote (fst kv) @ js '': '' @ stringify numberText inner (snd kv)) kvs) @
               [newline] @ indent @ js ''}''))"

definition JSON_stringify :: "(jsstring \<Rightarrow> jsstring) \<Rightarrow> json \<Rightarrow> jsstring" where
  "JSON_stringify numberText v = stringify numberText [] v"

text \<open>
  What a text written by \<open>JSON.stringify\<close> holds: the value with each number as it is
  written. The tokens of a value are those of its text.
\<close>

fun json_written :: "(jsstring \<Rightarrow> jsstring) \<Rightarrow> json \<Rightarrow> json" where
  "json_written numberText (JNum n) = (if infinite_literal n then JNull else JNum (numberText n))"
| "json_written numberText (JArr xs) = JArr (map (json_written numberText) xs)"
| "json_written numberText (JObj kvs) =
     JObj (map (\<lambda>kv. (fst kv, json_written numberText (snd kv))) kvs)"
| "json_written numberText v = v"

text \<open>
  A value of the language has well-formed numbers, and no object has two properties of
  one name.
\<close>

fun wf_json :: "json \<Rightarrow> bool" where
  "wf_json (JNum n) = valid_number n"
| "wf_json (JArr xs) = list_all wf_json xs"
| "wf_json (JObj kvs) = (distinct (map fst kvs) \<and> list_all (\<lambda>kv. wf_json (snd kv)) kvs)"
| "wf_json v = True"

fun separate :: "'a \<Rightarrow> 'a list list \<Rightarrow> 'a list" where
  "separate sep [] = []"
| "separate sep [x] = x"
| "separate sep (x # y # ys) = x @ sep # separate sep (y # ys)"

fun tokens_of :: "json \<Rightarrow> token list" where
  "tokens_of (JArr xs) = LBracket # separate Comma (map tokens_of xs) @ [RBracket]"
| "tokens_of (JObj kvs) =
     LBrace # separate Comma (map (\<lambda>kv. Atom (JStr (fst kv)) # Colon # tokens_of (snd kv)) kvs) @
       [RBrace]"
| "tokens_of v = [Atom v]"

subsection \<open>\<open>Date.prototype.toISOString\<close>\<close>

text \<open>
  The time is in milliseconds since the epoch. The date of a day number follows the
  proleptic Gregorian calendar; the year has four digits up to 9999 and a sign and six
  digits beyond.
\<close>

fun pad :: "nat \<Rightarrow> nat \<Rightarrow> jsstring" where
  "pad 0 n = []"
| "pad (Suc w) n = pad w (n div 10) @ [digit (n mod 10)]"

definition civil_from_days :: "nat \<Rightarrow> nat \<times> nat \<times> nat" where
  "civil_from_days days =
     (let z = days + 719468;
          era = z div 146097;
          doe = z mod 146097;
          yoe = (doe - doe div 1460 + doe div 36524 - doe div 146096) div 365;
          doy = doe - (365 * yoe + yoe div 4 - yoe div 100);
          mp = (5 * doy + 2) div 153;
          d = doy - (153 * mp + 2) div 5 + 1;
          m = (if mp < 10 then mp + 3 else mp - 9);
          y = yoe + era * 400 + (if m \<le> 2 then 1 else 0)
      in (y, m, d))"

definition toISOString :: "nat \<Rightarrow> jsstring" where
  "toISOString ms =
     (case civil_from_days (ms div 86400000) of
        (y, m, d) \<Rightarrow>
          (if y \<le> 9999 then pad 4 y else js ''+'' @ pad 6 y) @ js ''-'' @ pad 2 m @ js ''-'' @
          pad 2 d @ js ''T'' @ pad 2 (ms div 3600000 mod 24) @ js '':'' @
          pad 2 (ms div 60000 mod 60) @ js '':'' @ pad 2 (ms div 1000 mod 60) @ js ''.'' @
          pad 3 (ms mod 1000) @ js ''Z'')"

section \<open>The sync and upload store\<close>

text \<open>
  The configuration read at start-up: the sync secret (\<open>process.env.SYNC_TOKEN\<close>) and
  the uploads directory, an absolute path given by its segments.
\<close>

record config =
  syncToken :: "jsstring option"
  uploadsDir :: "jsstring list"

text \<open>
  A request, as far as the handlers read it: the two headers that may carry the token,
  and the body that \<open>express.json\<close> has parsed (\<open>None\<close> when there is none).
\<close>

record request =
  authorization :: "jsstring option"
  x_sync_token :: "jsstring option"
  body :: "json option"

record response =
  status_code :: nat
  payload :: json

text \<open>
  The files of the server. \<open>sync_file\<close> is the text of \<open>sync.json\<close>, \<open>None\<close> when the
  file does not exist; \<open>uploads\<close> gives the bytes of the file at a path. A read of the
  sync file throws when \<open>read_fault\<close> holds. A write throws when \<open>write_fault\<close> is
  not \<open>NoFault\<close>: either before the file is opened, which leaves it as it was, or after
  it was opened and truncated and some of the data was written.
\<close>

datatype fs_fault = NoFault | FailUntouched | FailTruncated nat

record world =
  sync_file :: "jsstring option"
  read_fault :: bool
  write_fault :: fs_fault
  uploads :: "jsstring list \<Rightarrow> 8 word list option"

text \<open>\<open>fs.writeFileSync\<close>: whether it returned, and the file afterwards.\<close>

definition writeFileSync :: "fs_fault \<Rightarrow> 'a list option \<Rightarrow> 'a list \<Rightarrow> bool \<times> 'a list option" where
  "writeFileSync fault old data =
     (case fault of
        NoFault \<Rightarrow> (True, Some data)
      | FailUntouched \<Rightarrow> (False, old)
      | FailTruncated n \<Rightarrow> (False, Some (take n data)))"

subsection \<open>The auth guard\<close>

definition getAuthToken :: "request \<Rightarrow> jsstring option" where
  "getAuthToken req =
     (let header = (case js_or (authorization req) (Some []) of None \<Rightarrow> [] | Some h \<Rightarrow> h)
      in if take 7 header = js ''Bearer '' then Some (drop 7 header) else x_sync_token req)"

definition json_error :: "nat \<Rightarrow> string \<Rightarrow> response" where
  "json_error st msg = \<lparr>status_code = st, payload = JObj [(js ''error'', JStr (js msg))]\<rparr>"

definition requireSyncAuth ::
  "jsstring option \<Rightarrow> request \<Rightarrow> (world \<Rightarrow> response \<times> world) \<Rightarrow> world \<Rightarrow> response \<times> world" where
  "requireSyncAuth secret req next w =
     (if \<not> truthy secret then next w
      else (let token = getAuthToken req
            in if truthy token \<and> token = secret then next w
               else (json_error 401 ''Unauthorized'', w)))"

subsection \<open>The sync document\<close>

definition no_document :: json where
  "no_document = JObj [(js ''updatedAt'', JNull)]"

definition readSyncData :: "world \<Rightarrow> json" where
  "readSyncData w =
     (case sync_file w of
        None \<Rightarrow> no_document
      | Some raw \<Rightarrow>
          if read_fault w then no_document
          else (case JSON_parse raw of
                  None \<Rightarrow> no_document
                | Some parsed \<Rightarrow>
                    if js_typeof (Some parsed) = js ''object'' \<and> js_truthy (Some parsed)
                    then parsed else no_document))"

text \<open>
  \<open>writeSyncData\<close> at the time \<open>now\<close> of the server's clock, in milliseconds. The
  result is \<open>None\<close> when the write has thrown.
\<close>

definition writeSyncData ::
  "(jsstring \<Rightarrow> jsstring) \<Rightarrow> nat \<Rightarrow> json \<Rightarrow> world \<Rightarrow> json option \<times> world" where
  "writeSyncData numberText now data w =
     (let next = JObj (AList.update (js ''updatedAt'') (JStr (toISOString now)) (spread data))
      in case writeFileSync (write_fault w) (sync_file w) (JSON_stringify numberText next) of
           (True, file) \<Rightarrow> (Some next, w\<lparr>sync_file := file\<rparr>)
         | (False, file) \<Rightarrow> (None, w\<lparr>sync_file := file\<rparr>))"

definition get_sync :: "world \<Rightarrow> response \<times> world" where
  "get_sync w = (\<lparr>status_code = 200, payload = readSyncData w\<rparr>, w)"

definition post_sync ::
  "(jsstring \<Rightarrow> jsstring) \<Rightarrow> nat \<Rightarrow> request \<Rightarrow> world \<Rightarrow> response \<times> world" where
  "post_sync numberText now req w =
     (if \<not> js_truthy (body req) \<or> js_typeof (body req) \<noteq> js ''object''
      then (json_error 400 ''Invalid payload'', w)
      else (case body req of
              None \<Rightarrow> (json_error 400 ''Invalid payload'', w)
            | Some data \<Rightarrow>
                (case writeSyncData numberText now data w of
                   (Some stored, w') \<Rightarrow>
                     (\<lparr>status_code = 200,
                       payload = JObj ((js ''ok'', JBool True) #
                         (case get_property (Some stored) (js ''updatedAt'') of
                            None \<Rightarrow> [] | Some u \<Rightarrow> [(js ''updatedAt'', u)]))\<rparr>, w')
                 | (None, w') \<Rightarrow> (json_error 500 ''Failed to write sync data'', w'))))"

subsection \<open>Uploads\<close>

text \<open>\<open>/[^\w.-]/g\<close> replaced by an underscore.\<close>

definition word_char :: "jschar \<Rightarrow> bool" where
  "word_char c =
     ((0x41 \<le> c \<and> c \<le> 0x5A) \<or> (0x61 \<le> c \<and> c \<le> 0x7A) \<or> (0x30 \<le> c \<and> c \<le> 0x39) \<or> c = 0x5F)"

definition safe_char :: "jschar \<Rightarrow> bool" where
  "safe_char c = (word_char c \<or> c = 0x2E \<or> c = 0x2D)"

definition sanitize :: "jsstring \<Rightarrow> jsstring" where
  "sanitize s = map (\<lambda>c. if safe_char c then c else 0x5F) s"

text \<open>
  The first occurrence of a separator in a string: the text before it and the text
  after it. \<open>s.includes(sep)\<close> and \<open>s.split(sep)[1]\<close> follow.
\<close>

fun find_first :: "jsstring \<Rightarrow> jsstring \<Rightarrow> (jsstring \<times> jsstring) option" where
  "find_first sep [] = (if sep = [] then Some ([], []) else None)"
| "find_first sep (c # cs) =
     (if take (length sep) (c # cs) = sep then Some ([], drop (length sep) (c # cs))
      else (case find_first sep cs of
              None \<Rightarrow> None
            | Some (before, after) \<Rightarrow> Some (c # before, after)))"

definition js_includes :: "jsstring \<Rightarrow> jsstring \<Rightarrow> bool" where
  "js_includes s sep = (find_first sep s \<noteq> None)"

definition split_second :: "jsstring \<Rightarrow> jsstring \<Rightarrow> jsstring option" where
  "split_second s sep =
     (case find_first sep s of
        None \<Rightarrow> None
      | Some (before, after) \<Rightarrow>
          (case find_first sep after of
             None \<Rightarrow> Some after
           | Some (piece, rest) \<Rightarrow> Some piece))"

text \<open>\<open>data.includes('base64,') ? data.split('base64,')[1] : data\<close>\<close>

definition base64_part :: "jsstring \<Rightarrow> jsstring" where
  "base64_part data =
     (if js_includes data (js ''base64,'')
      then (case split_second data (js ''base64,'') of None \<Rightarrow> data | Some piece \<Rightarrow> piece)
      else data)"

text \<open>
  \<open>path.join(dir, name)\<close> on a POSIX system, for an absolute normalized \<open>dir\<close>: the
  segments of \<open>name\<close> are taken in turn, an empty one and \<open>.\<close> are skipped and
  \<open>..\<close> goes up.
\<close>

fun split_on :: "jschar \<Rightarrow> jsstring \<Rightarrow> jsstring list" where
  "split_on sep [] = [[]]"
| "split_on sep (c # cs) =
     (if c = sep then [] # split_on sep cs
      else (case split_on sep cs of [] \<Rightarrow> [[c]] | seg # segs \<Rightarrow> (c # seg) # segs))"

definition path_join :: "jsstring list \<Rightarrow> jsstring \<Rightarrow> jsstring list" where
  "path_join dir name =
     foldl (\<lambda>path seg.
              if seg = [] \<or> seg = js ''.'' then path
              else if seg = js ''..'' then butlast path
              else path @ [seg])
       dir (split_on 0x2F name)"

text \<open>
  The upload handler at the time \<open>now\<close> of the server's clock; \<open>decode\<close> is
  \<open>Buffer.from(\<cdot>, 'base64')\<close> and \<open>numberText\<close> the text of a number.
\<close>

definition post_upload ::
  "config \<Rightarrow> (jsstring \<Rightarrow> 8 word list) \<Rightarrow> (jsstring \<Rightarrow> jsstring) \<Rightarrow> nat \<Rightarrow> request \<Rightarrow> world
     \<Rightarrow> response \<times> world" where
  "post_upload cfg decode numberText now req w =
     (let fields = (case body req of None \<Rightarrow> Some (JObj []) | Some JNull \<Rightarrow> Some (JObj []) | b \<Rightarrow> b);
          fileName = get_property fields (js ''fileName'');
          fileType = get_property fields (js ''fileType'');
          data = get_property fields (js ''data'')
      in if \<not> js_truthy fileName \<or> \<not> js_truthy data \<or> js_typeof data \<noteq> js ''string''
         then (json_error 400 ''Missing file payload'', w)
         else
           (case (fileName, data) of
              (Some name, Some (JStr text)) \<Rightarrow>
                (let replaced = sanitize (js_String numberText name);
                     safeBase = (if replaced = [] then js ''upload'' else replaced);
                     uniqueName = decimal now @ js ''-'' @ safeBase;
                     target = path_join (uploadsDir cfg) uniqueName;
                     buffer = decode (base64_part text)
                 in case writeFileSync (write_fault w) (uploads w target) buffer of
                      (True, file) \<Rightarrow>
                        (\<lparr>status_code = 200,
                          payload = JObj
                            [(js ''url'', JStr (js ''/uploads/'' @ uniqueName)),
                             (js ''fileName'', JStr safeBase),
                             (js ''fileType'',
                              (case fileType of
                                 None \<Rightarrow> JStr []
                               | Some t \<Rightarrow> if js_truthy fileType then t else JStr [])),
                             (js ''size'', JNum (decimal (length buffer)))]\<rparr>,
                         w\<lparr>uploads := (uploads w)(target := file)\<rparr>)
                    | (False, file) \<Rightarrow>
                        (json_error 500 ''Failed to store file'',
                         w\<lparr>uploads := (uploads w)(target := file)\<rparr>))
            | _ \<Rightarrow> (json_error 400 ''Missing file payload'', w)))"

subsection \<open>The routes behind the auth guard\<close>

definition api_sync_get :: "config \<Rightarrow> request \<Rightarrow> world \<Rightarrow> response \<times> world" where
  "api_sync_get cfg req w = requireSyncAuth (syncToken cfg) req get_sync w"

definition api_sync_post ::
  "config \<Rightarrow> (jsstring \<Rightarrow> jsstring) \<Rightarrow> nat \<Rightarrow> request \<Rightarrow> world \<Rightarrow> response \<times> world" where
  "api_sync_post cfg numberText now req w =
     requireSyncAuth (syncToken cfg) req (post_sync numberText now req) w"

definition api_upload_post ::
  "config \<Rightarrow> (jsstring \<Rightarrow> 8 word list) \<Rightarrow> (jsstring \<Rightarrow> jsstring) \<Rightarrow> nat \<Rightarrow> request \<Rightarrow> world
     \<Rightarrow> response \<times> world" where
  "api_upload_post cfg decode numberText now req w =
     requireSyncAuth (syncToken cfg) req (post_upload cfg decode numberText now req) w"

section \<open>The setup-response parser (\<open>extractJsonObject\<close>, \<open>parsePhaseSetup\<close>)\<close>

text \<open>
  \<open>indexOf\<close> and \<open>lastIndexOf\<close> of a code unit (\<open>-1\<close> when it does not occur).
\<close>

definition indexOf :: "jsstring \<Rightarrow> jschar \<Rightarrow> int" where
  "indexOf s c = (if c \<in> set s then int (length (takeWhile (\<lambda>x. x \<noteq> c) s)) else - 1)"

definition lastIndexOf :: "jsstring \<Rightarrow> jschar \<Rightarrow> int" where
  "lastIndexOf s c =
     (if c \<in> set s then int (length s) - 1 - int (length (takeWhile (\<lambda>x. x \<noteq> c) (rev s)))
      else - 1)"

text \<open>The result is \<open>None\<close> for \<open>null\<close>.\<close>

definition extractJsonObject :: "jsstring \<Rightarrow> json option" where
  "extractJsonObject text =
     (let start = indexOf text 0x7B;
          end = lastIndexOf text 0x7D
      in if start < 0 \<or> end < 0 \<or> end \<le> start then None
         else JSON_parse (js_slice text start (end + 1)))"

record phase_setup =
  setup_title :: "jsstring option"
  setup_range :: "jsstring option"
  setup_summary :: "jsstring option"
  subphaseTitle :: "jsstring option"
  subphaseRange :: "jsstring option"
  subphasePrompt :: "jsstring option"
  themes :: "jsstring list option"
  questions :: "jsstring list option"

definition pickString :: "json \<Rightarrow> jsstring \<Rightarrow> jsstring option" where
  "pickString v key =
     (case get_property (Some v) key of Some (JStr s) \<Rightarrow> Some (js_trim s) | _ \<Rightarrow> None)"

definition pickList :: "json \<Rightarrow> jsstring \<Rightarrow> jsstring list option" where
  "pickList v key =
     (case get_property (Some v) key of
        Some (JArr items) \<Rightarrow>
          Some (filter (\<lambda>item. item \<noteq> [])
                 (map js_trim
                    (concat (map (\<lambda>item. case item of JStr s \<Rightarrow> [s] | _ \<Rightarrow> []) items))))
      | _ \<Rightarrow> None)"

definition parsePhaseSetup :: "jsstring \<Rightarrow> phase_setup option" where
  "parsePhaseSetup text =
     (if text = [] then None
      else (case extractJsonObject text of
              None \<Rightarrow> None
            | Some parsed \<Rightarrow>
                if \<not> js_truthy (Some parsed) \<or> js_typeof (Some parsed) \<noteq> js ''object''
                then None
                else Some
                  \<lparr>setup_title = pickString parsed (js ''title''),
                   setup_range = pickString parsed (js ''range''),
                   setup_summary = pickString parsed (js ''summary''),
                   subphaseTitle = pickString parsed (js ''subphaseTitle''),
                   subphaseRange = pickString parsed (js ''subphaseRange''),
                   subphasePrompt = pickString parsed (js ''subphasePrompt''),
                   themes = pickList parsed (js ''themes''),
                   questions = pickList parsed (js ''questions'')\<rparr>))"

section \<open>Values for the examples\<close>

text \<open>
  A configuration with a secret, a world without files or faults, stand-ins for the
  base64 decoder (one byte for each code unit) and for the text of a number (its
  literal), and an upload request.
\<close>

definition sample_config :: config where
  "sample_config =
     \<lparr>syncToken = Some (js ''s3cret''), uploadsDir = [js ''srv'', js ''server'', js ''uploads'']\<rparr>"

definition empty_world :: world where
  "empty_world =
     \<lparr>sync_file = None, read_fault = False, write_fault = NoFault, uploads = (\<lambda>path. None)\<rparr>"

definition sample_decode :: "jsstring \<Rightarrow> 8 word list" where
  "sample_decode s = map ucast s"

definition sample_numberText :: "jsstring \<Rightarrow> jsstring" where
  "sample_numberText n = n"

definition upload_request :: "string \<Rightarrow> string \<Rightarrow> request" where
  "upload_request name data =
     \<lparr>authorization = None, x_sync_token = None,
      body = Some (JObj [(js ''fileName'', JStr (js name)), (js ''data'', JStr (js data))])\<rparr>"

section \<open>Properties of the undo/redo hook\<close>

lemma undo_inv_initial: "undo_inv (useUndoRedo x)"
  by (simp add: undo_inv_def useUndoRedo_def)

lemma setState_history:
  assumes "undo_inv r"
  shows "history (setState r v queued) =
           (if nat (index r) + 2 > 50 then tl (take (nat (index r) + 1) (history r) @ [v])
            else take (nat (index r) + 1) (history r) @ [v])"
proof -
  from assms have a: "0 \<le> index r" and b: "index r < int (length (history r))"
    by (simp_all add: undo_inv_def)
  have sl: "js_slice (history r) 0 (index r + 1) = take (nat (index r) + 1) (history r)"
    using a b by (simp add: js_slice_def Let_def min_def nat_add_distrib)
  have len: "length (take (nat (index r) + 1) (history r)) = nat (index r) + 1"
    using a b by simp
  show ?thesis
    unfolding setState_def sl Let_def using len by simp
qed

lemma setState_index:
  "index (setState r v queued) = int (length (history (setState r v queued))) - 1"
  by (simp add: setState_def Let_def)

lemma setState_length:
  assumes "undo_inv r"
  shows "length (history (setState r v queued)) =
           (if nat (index r) + 2 > 50 then 50 else nat (index r) + 2)"
proof -
  from assms have a: "0 \<le> index r" and b: "index r < int (length (history r))"
    and c: "length (history r) \<le> 50"
    by (simp_all add: undo_inv_def)
  have len: "length (take (nat (index r) + 1) (history r)) = nat (index r) + 1"
    using a b by simp
  have "nat (index r) + 1 \<le> 50" using a b c by linarith
  then show ?thesis
    unfolding setState_history [OF assms] using len by auto
qed

lemma setState_inv: "undo_inv r \<Longrightarrow> undo_inv (setState r v queued)"
  unfolding undo_inv_def [of "setState r v queued"] setState_index
  by (simp add: setState_length)

lemma setState_last:
  assumes "undo_inv r"
  shows "history (setState r v queued) \<noteq> [] \<and> last (history (setState r v queued)) = v"
proof -
  from assms have a: "0 \<le> index r" and b: "index r < int (length (history r))"
    by (simp_all add: undo_inv_def)
  have ne: "take (nat (index r) + 1) (history r) \<noteq> []"
    using a b by auto
  then have "tl (take (nat (index r) + 1) (history r) @ [v])
               = tl (take (nat (index r) + 1) (history r)) @ [v]"
    by simp
  then show ?thesis
    unfolding setState_history [OF assms] by simp
qed

lemma setState_state: "undo_inv r \<Longrightarrow> state (setState r v queued) = Some v"
proof -
  assume i: "undo_inv r"
  let ?h = "history (setState r v queued)"
  from setState_last [OF i] have ne: "?h \<noteq> []" and l: "last ?h = v" by simp_all
  from ne have pos: "0 < length ?h" by simp
  have "?h ! (length ?h - 1) = v" using l ne by (simp add: last_conv_nth)
  moreover have "nat (int (length ?h) - 1) = length ?h - 1" by simp
  ultimately show ?thesis
    unfolding state_def js_index_def setState_index using pos by simp
qed

text \<open>
  A callback called first in its render, so that the state queued is the state of the
  render, keeps the invariant; \<open>setState\<close> and \<open>reset\<close> keep it wherever they are
  called, since they queue both the history and the index.
\<close>

lemma first_callback_invariant:
  "undo_inv r \<Longrightarrow>
     undo_inv (useUndoRedo x) \<and>
     undo_inv (setState r v queued) \<and> undo_inv (undo r r) \<and> undo_inv (redo r r) \<and>
     undo_inv (reset x queued) \<and>
     state (setState r v queued) = Some v \<and> \<not> canRedo (setState r v queued) \<and>
     (canUndo r \<longleftrightarrow> 0 < index r) \<and>
     (canRedo r \<longleftrightarrow> index r < int (length (history r)) - 1)"
proof -
  assume i: "undo_inv r"
  have "\<not> canRedo (setState r v queued)" by (simp add: canRedo_def setState_index)
  moreover have "canUndo r \<longleftrightarrow> 0 < index r" by (simp add: canUndo_def)
  moreover have "canRedo r \<longleftrightarrow> index r < int (length (history r)) - 1"
    by (simp add: canRedo_def)
  moreover have "undo_inv (undo r r)" using i by (simp add: undo_inv_def undo_def)
  moreover have "undo_inv (redo r r)" using i by (simp add: undo_inv_def redo_def)
  moreover have "undo_inv (reset x queued)" by (simp add: undo_inv_def reset_def)
  ultimately show ?thesis
    using undo_inv_initial [of x] setState_inv [OF i, of v queued] setState_state [OF i, of v queued]
    by blast
qed

text \<open>
  Claim C9, at the input where the code departs from it. In a render with the history
  \<open>[1, 2, 3]\<close> and the index 2, which satisfies the invariant, \<open>reset(9)\<close> followed by
  \<open>undo()\<close> queues the history \<open>[9]\<close> and then, from the index 2 that \<open>undo\<close> has
  closed over, the index 1: the next render has an index outside its history and the
  exposed state is \<open>undefined\<close>. The same holds for \<open>reset(9)\<close> followed by \<open>redo()\<close>
  from the index 1.
\<close>

theorem C9_stale_index_after_reset:
  "undo_inv \<lparr>history = [1, 2, 3 :: nat], index = 2\<rparr> \<and>
   next_render \<lparr>history = [1, 2, 3 :: nat], index = 2\<rparr> [Reset 9, Undo] =
     \<lparr>history = [9], index = 1\<rparr> \<and>
   \<not> undo_inv (next_render \<lparr>history = [1, 2, 3 :: nat], index = 2\<rparr> [Reset 9, Undo]) \<and>
   state (next_render \<lparr>history = [1, 2, 3 :: nat], index = 2\<rparr> [Reset 9, Undo]) = None \<and>
   undo_inv \<lparr>history = [1, 2, 3 :: nat], index = 1\<rparr> \<and>
   next_render \<lparr>history = [1, 2, 3 :: nat], index = 1\<rparr> [Reset 9, Redo] =
     \<lparr>history = [9], index = 2\<rparr> \<and>
   \<not> undo_inv (next_render \<lparr>history = [1, 2, 3 :: nat], index = 1\<rparr> [Reset 9, Redo])"
  by (simp add: next_render_def reset_def undo_def redo_def undo_inv_def state_def js_index_def)

theorem C9_stale_index_after_reset_witness:
  "index (next_render \<lparr>history = [1, 2, 3 :: nat], index = 2\<rparr> [Reset 9, Undo]) = 1 \<and>
   length (history (next_render \<lparr>history = [1, 2, 3 :: nat], index = 2\<rparr> [Reset 9, Undo])) = 1"
proof -
  note T = C9_stale_index_after_reset [THEN conjunct2, THEN conjunct1]
  show ?thesis unfolding T by simp
qed

section \<open>Properties of the context block\<close>

lemma js_nonempty: "s \<noteq> [] \<Longrightarrow> js s @ t \<noteq> []"
  by (simp add: js_def)

lemma filter_Boolean_Cons_Some:
  "v \<noteq> [] \<Longrightarrow> filter_Boolean (Some v # xs) = v # filter_Boolean xs"
  by (simp add: filter_Boolean_def)

lemma filter_Boolean_optional_line:
  "filter_Boolean (optional_line l x # xs) =
     (case x of None \<Rightarrow> [] | Some v \<Rightarrow> if v = [] then [] else [l @ v]) @ filter_Boolean xs"
  by (simp add: filter_Boolean_def optional_line_def split: option.splits)

lemma filter_Boolean_Nil: "filter_Boolean [] = []"
  by (simp add: filter_Boolean_def)

lemma context_lines_eq:
  "context_lines c =
     [js ''Kind: '' @ nullish (kind c) (js ''unknown''),
      js ''Scope: '' @ nullish (scope c) (js ''summary''),
      js ''Title: '' @ nullish (title c) (js ''Untitled''),
      js ''Range: '' @ nullish (range_f c) (js ''n/a'')] @
     (case focus c of None \<Rightarrow> [] | Some v \<Rightarrow> if v = [] then [] else [js ''Focus: '' @ v]) @
     (case summary c of None \<Rightarrow> [] | Some v \<Rightarrow> if v = [] then [] else [js ''Summary: '' @ v]) @
     (case prompt c of None \<Rightarrow> [] | Some v \<Rightarrow> if v = [] then [] else [js ''Prompt: '' @ v]) @
     (case draft c of None \<Rightarrow> [] | Some v \<Rightarrow> if v = [] then [] else [js ''Draft: '' @ v]) @
     (case readingText c of None \<Rightarrow> [] | Some v \<Rightarrow> if v = [] then [] else [js ''Reading text: '' @ v])"
  unfolding context_lines_def
  by (simp only: filter_Boolean_Cons_Some js_nonempty filter_Boolean_optional_line
        filter_Boolean_Nil append_Nil2 append_Cons append_Nil list.simps char.simps
        not_False_eq_True)

lemma newlines_join:
  "length xs \<le> length (filter (\<lambda>ch. ch = newline) (js_join [newline] (x # xs)))"
proof (induction xs arbitrary: x)
  case Nil
  show ?case by simp
next
  case (Cons a xs)
  from Cons.IH [of a] show ?case by (simp add: trans_le_add2)
qed

lemma line_count_join:
  "xs \<noteq> [] \<Longrightarrow> length xs \<le> line_count (js_join [newline] xs)"
  using newlines_join [of "tl xs" "hd xs"] by (cases xs) (simp_all add: line_count_def)

text \<open>
  Claim C10. The context block is the join, by line feeds, of four lines that are always
  there (Kind, Scope, Title, Range, with the defaults unknown, summary, Untitled and n/a
  for an absent field) followed by the optional lines Focus, Summary, Prompt, Draft and
  Reading text, each present exactly when its field is a non-empty string. So the block
  has at least four lines.
\<close>

theorem C10_context_block_lines:
  "buildContextBlock c =
     js_join [newline]
       ([js ''Kind: '' @ (case kind c of None \<Rightarrow> js ''unknown'' | Some v \<Rightarrow> v),
         js ''Scope: '' @ (case scope c of None \<Rightarrow> js ''summary'' | Some v \<Rightarrow> v),
         js ''Title: '' @ (case title c of None \<Rightarrow> js ''Untitled'' | Some v \<Rightarrow> v),
         js ''Range: '' @ (case range_f c of None \<Rightarrow> js ''n/a'' | Some v \<Rightarrow> v)] @
        (case focus c of None \<Rightarrow> [] | Some v \<Rightarrow> if v = [] then [] else [js ''Focus: '' @ v]) @
        (case summary c of None \<Rightarrow> [] | Some v \<Rightarrow> if v = [] then [] else [js ''Summary: '' @ v]) @
        (case prompt c of None \<Rightarrow> [] | Some v \<Rightarrow> if v = [] then [] else [js ''Prompt: '' @ v]) @
        (case draft c of None \<Rightarrow> [] | Some v \<Rightarrow> if v = [] then [] else [js ''Draft: '' @ v]) @
        (case readingText c of None \<Rightarrow> [] | Some v \<Rightarrow>
           if v = [] then [] else [js ''Reading text: '' @ v])) \<and>
   4 \<le> length (context_lines c) \<and> length (context_lines c) \<le> 9 \<and>
   4 \<le> line_count (buildContextBlock c)"
proof -
  have eq: "buildContextBlock c = js_join [newline] (context_lines c)"
    by (simp add: buildContextBlock_def)
  have len: "4 \<le> length (context_lines c) \<and> length (context_lines c) \<le> 9"
    unfolding context_lines_eq by (simp split: option.splits)
  then have ne: "context_lines c \<noteq> []" by auto
  have "4 \<le> line_count (buildContextBlock c)"
    unfolding eq using line_count_join [OF ne] len by linarith
  then show ?thesis
    using len unfolding eq context_lines_eq nullish_def by simp
qed

section \<open>Properties of the OpenAI-compatible dispatch\<close>

lemma try_models_log:
  "try_models create msgs jm models le w = (r, tried, w') \<Longrightarrow>
     length tried \<le> length models \<and>
     map fst tried = take (length tried) models \<and>
     (\<forall>a \<in> set (butlast tried). model_failure a) \<and>
     (case r of
        Completed c m \<Rightarrow> tried \<noteq> [] \<and> last tried = (m, Inr c)
      | Thrown e \<Rightarrow> tried \<noteq> [] \<and> snd (last tried) = Inl e \<and> \<not> isModelError e
      | UsedUp le' \<Rightarrow>
          length tried = length models \<and> (\<forall>a \<in> set tried. model_failure a) \<and>
          le' = (if tried = [] then le else (case snd (last tried) of Inl e \<Rightarrow> Some e | Inr c \<Rightarrow> None)))"
proof (induction models arbitrary: le w r tried w')
  case Nil
  then show ?case by auto
next
  case (Cons m rest)
  obtain x w1 where c: "create \<lparr>model = m, messages = msgs, temperature = 4 / 10, json_object = jm\<rparr> w = (x, w1)"
    by (cases "create \<lparr>model = m, messages = msgs, temperature = 4 / 10, json_object = jm\<rparr> w")
  show ?case
  proof (cases x)
    case (Inr comp)
    with c Cons.prems show ?thesis by auto
  next
    case (Inl e)
    show ?thesis
    proof (cases "isModelError e")
      case False
      with c Inl Cons.prems show ?thesis by auto
    next
      case True
      obtain r2 tried2 w2 where rec: "try_models create msgs jm rest (Some e) w1 = (r2, tried2, w2)"
        by (cases "try_models create msgs jm rest (Some e) w1")
      from c Inl True rec Cons.prems
      have eqs: "r = r2" "tried = (m, Inl e) # tried2" "w' = w2" by auto
      from Cons.IH [OF rec] show ?thesis
        unfolding eqs using True
        by (cases r2) (auto simp: model_failure_def split: if_splits)
    qed
  qed
qed

lemma dispatch_log:
  assumes "dispatch create msgs jm models w = (res, tried, w')"
  shows "length tried \<le> length models"
    and "map fst tried = take (length tried) models"
    and "\<forall>a \<in> set (butlast tried). model_failure a"
    and "tried \<noteq> [] \<Longrightarrow> snd (last tried) = Inr c \<Longrightarrow>
           res = Inr \<lparr>out_text = completion_text c, out_model = fst (last tried)\<rparr>"
    and "tried \<noteq> [] \<Longrightarrow> snd (last tried) = Inl e \<Longrightarrow> res = Inl e"
    and "tried \<noteq> [] \<Longrightarrow> snd (last tried) = Inl e \<Longrightarrow> isModelError e \<Longrightarrow> length tried = length models"
    and "tried = [] \<Longrightarrow> models = [] \<and> res = Inl (new_Error (js ''No available model''))"
proof -
  obtain r where t: "try_models create msgs jm models None w = (r, tried, w')"
    using assms unfolding dispatch_def
    by (cases "try_models create msgs jm models None w") (auto split: loop_end.splits)
  note L = try_models_log [OF t]
  from L show "length tried \<le> length models" by simp
  from L show "map fst tried = take (length tried) models" by simp
  from L show "\<forall>a \<in> set (butlast tried). model_failure a" by simp
  from assms t have res: "res = (case r of Thrown error \<Rightarrow> Inl error
      | UsedUp lastError \<Rightarrow> Inl (case lastError of Some e \<Rightarrow> e | None \<Rightarrow> new_Error (js ''No available model''))
      | Completed completion modelUsed \<Rightarrow> Inr \<lparr>out_text = completion_text completion, out_model = modelUsed\<rparr>)"
    unfolding dispatch_def by (auto split: loop_end.splits)
  { assume ne: "tried \<noteq> []" and l: "snd (last tried) = Inr c"
    from ne have m: "last tried \<in> set tried" by simp
    from L l m show "res = Inr \<lparr>out_text = completion_text c, out_model = fst (last tried)\<rparr>"
      unfolding res by (cases r) (auto simp: model_failure_def) }
  { assume ne: "tried \<noteq> []" and l: "snd (last tried) = Inl e"
    from L l ne show "res = Inl e"
      unfolding res by (cases r) auto
    assume me: "isModelError e"
    from L l ne me show "length tried = length models"
      by (cases r) auto }
  { assume "tried = []"
    with L show "models = [] \<and> res = Inl (new_Error (js ''No available model''))"
      unfolding res by (cases r) auto }
qed

lemma buildModelList_eq:
  "buildModelList env =
     (case env of None \<Rightarrow> modelFallbacks
      | Some m \<Rightarrow> if m = [] then modelFallbacks else m # filter (\<lambda>x. x \<noteq> m) modelFallbacks)"
proof (cases env)
  case None
  then show ?thesis
    by (simp add: buildModelList_def filter_Boolean_def modelFallbacks_def set_values_def js_def)
next
  case (Some m)
  then show ?thesis
    by (simp add: buildModelList_def filter_Boolean_def modelFallbacks_def set_values_def js_def)
qed

lemma distinct_buildModelList: "distinct (buildModelList env)"
  unfolding buildModelList_eq
  by (simp add: modelFallbacks_def js_def split: option.splits)

text \<open>
  Claim C2. The candidates are the preferred model, when set and non-empty, followed by
  the fallback list without it, all distinct. The attempts made are an initial segment
  of the candidates, in their order; every attempt but the last failed with a
  model-unavailable error, so nothing is attempted after a success. When the last
  attempt succeeded, the result is the trimmed text of its completion and its model, and
  a result is returned in no other case. When every attempt failed with a
  model-unavailable error, all candidates were attempted and the last error is raised,
  or the error "No available model" when there was no candidate.
\<close>

theorem C2_fallback_order:
  assumes "dispatch create msgs jm models w = (res, tried, w')"
  shows "map fst tried = take (length tried) models \<and>
     (\<forall>a \<in> set (butlast tried). model_failure a) \<and>
     (\<forall>c. tried \<noteq> [] \<and> snd (last tried) = Inr c \<longrightarrow>
        res = Inr \<lparr>out_text = completion_text c, out_model = fst (last tried)\<rparr>) \<and>
     (\<forall>out. res = Inr out \<longrightarrow> tried \<noteq> [] \<and> (\<exists>c. snd (last tried) = Inr c)) \<and>
     ((\<forall>a \<in> set tried. model_failure a) \<longrightarrow>
        map fst tried = models \<and>
        (tried = [] \<longrightarrow> res = Inl (new_Error (js ''No available model''))) \<and>
        (\<forall>e. tried \<noteq> [] \<and> snd (last tried) = Inl e \<longrightarrow> res = Inl e)) \<and>
     callOpenAi (Some create) env msgs jm w = dispatch create msgs jm (buildModelList env) w \<and>
     buildModelList env =
       (case env of None \<Rightarrow> modelFallbacks
        | Some m \<Rightarrow> if m = [] then modelFallbacks else m # filter (\<lambda>x. x \<noteq> m) modelFallbacks) \<and>
     distinct (buildModelList env)"
proof -
  note D = dispatch_log [OF assms]
  have a: "\<forall>c. tried \<noteq> [] \<and> snd (last tried) = Inr c \<longrightarrow>
        res = Inr \<lparr>out_text = completion_text c, out_model = fst (last tried)\<rparr>"
    using D(4) by blast
  have b: "\<forall>e. tried \<noteq> [] \<and> snd (last tried) = Inl e \<longrightarrow> res = Inl e"
    using D(5) by blast
  have c: "\<forall>out. res = Inr out \<longrightarrow> tried \<noteq> [] \<and> (\<exists>c. snd (last tried) = Inr c)"
  proof (intro allI impI)
    fix out assume r: "res = Inr out"
    with D(7) have ne: "tried \<noteq> []" by auto
    moreover have "\<exists>c. snd (last tried) = Inr c"
    proof (cases "snd (last tried)")
      case (Inl e)
      with D(5) [OF ne] r show ?thesis by simp
    next
      case (Inr c)
      then show ?thesis by blast
    qed
    ultimately show "tried \<noteq> [] \<and> (\<exists>c. snd (last tried) = Inr c)" by blast
  qed
  have d: "(\<forall>a \<in> set tried. model_failure a) \<longrightarrow>
        map fst tried = models \<and>
        (tried = [] \<longrightarrow> res = Inl (new_Error (js ''No available model''))) \<and>
        (\<forall>e. tried \<noteq> [] \<and> snd (last tried) = Inl e \<longrightarrow> res = Inl e)"
  proof
    assume all: "\<forall>a \<in> set tried. model_failure a"
    have "length tried = length models"
    proof (cases "tried = []")
      case True
      with D(7) show ?thesis by simp
    next
      case False
      then have "model_failure (last tried)" using all by simp
      then obtain e where "snd (last tried) = Inl e" "isModelError e"
        by (auto simp: model_failure_def split: sum.splits)
      with D(6) [OF False] show ?thesis by blast
    qed
    with D(2) have "map fst tried = models" by simp
    with D(7) b show "map fst tried = models \<and>
        (tried = [] \<longrightarrow> res = Inl (new_Error (js ''No available model''))) \<and>
        (\<forall>e. tried \<noteq> [] \<and> snd (last tried) = Inl e \<longrightarrow> res = Inl e)" by blast
  qed
  have e: "callOpenAi (Some create) env msgs jm w = dispatch create msgs jm (buildModelList env) w"
    by (simp add: callOpenAi_def)
  from D(2) D(3) a b c d e buildModelList_eq [of env] distinct_buildModelList [of env]
  show ?thesis by blast
qed

lemma sample_dispatch:
  "dispatch sample_client () False (buildModelList None) 0 =
     (Inr \<lparr>out_text = js ''Hello.'', out_model = js ''gpt-4o''\<rparr>,
      [(js ''gpt-4o-mini'',
        Inl \<lparr>status = Some 404, error_code = None, error_message = None, code = None,
             message = None\<rparr>),
       (js ''gpt-4o'', Inr \<lparr>choices = Some [Some (js '' Hello. '')]\<rparr>)],
      2)"
  by code_simp

theorem C2_fallback_order_witness:
  "dispatch sample_client () False (buildModelList None) 0 =
     (Inr \<lparr>out_text = js ''Hello.'', out_model = js ''gpt-4o''\<rparr>,
      [(js ''gpt-4o-mini'',
        Inl \<lparr>status = Some 404, error_code = None, error_message = None, code = None,
             message = None\<rparr>),
       (js ''gpt-4o'', Inr \<lparr>choices = Some [Some (js '' Hello. '')]\<rparr>)],
      2) \<and>
   callOpenAi (Some sample_client) None () False 0 =
     dispatch sample_client () False (buildModelList None) 0 \<and>
   buildModelList None = modelFallbacks \<and>
   distinct (buildModelList None)"
proof -
  note h = sample_dispatch
  note T = C2_fallback_order [OF h, of None]
  note T5 = T [THEN conjunct2, THEN conjunct2, THEN conjunct2, THEN conjunct2, THEN conjunct2]
  have "callOpenAi (Some sample_client) None () False 0 =
          dispatch sample_client () False (buildModelList None) 0"
    by (rule T5 [THEN conjunct1])
  moreover have "buildModelList None = modelFallbacks"
    using T5 [THEN conjunct2, THEN conjunct1] by simp
  moreover have "distinct (buildModelList None)"
    by (rule T5 [THEN conjunct2, THEN conjunct2])
  ultimately show ?thesis using h by (intro conjI)
qed
text \<open>
  Claim C1. An error is a model error exactly when its status is 404, or its code (the
  nested \<open>error.code\<close> when that is a non-empty string, else \<open>code\<close>) is
  \<open>model_not_found\<close>, or its message (nested first, likewise) matches
  \<open>/model.*not found/i\<close> or \<open>/does not exist/i\<close>. After an attempt that raised
  an error, a further attempt is made exactly when the error is a model error and a
  candidate is left, and that attempt is on the next candidate; an error that is not a
  model error ends the attempts and is the error raised.
\<close>

theorem C1_fallback_trigger:
  assumes "dispatch create msgs jm models w = (res, tried, w')"
  shows "(isModelError e0 \<longleftrightarrow>
        status e0 = Some 404 \<or>
        (if truthy (error_code e0) then error_code e0 else code e0) = Some (js ''model_not_found'') \<or>
        regex_test (literal ''model'' @ [DotStar] @ literal ''not found'') (message_of e0) \<or>
        regex_test (literal ''does not exist'') (message_of e0)) \<and>
     message_of e0 =
       (if truthy (error_message e0) then the (error_message e0)
        else if truthy (message e0) then the (message e0) else []) \<and>
     (\<forall>i e. i < length tried \<and> snd (tried ! i) = Inl e \<longrightarrow>
        (Suc i < length tried \<longleftrightarrow> isModelError e \<and> Suc i < length models) \<and>
        (Suc i < length tried \<longrightarrow> fst (tried ! Suc i) = models ! Suc i) \<and>
        (\<not> isModelError e \<longrightarrow> Suc i = length tried \<and> res = Inl e))"
proof -
  note D = dispatch_log [OF assms]
  have cls: "isModelError e0 \<longleftrightarrow>
        status e0 = Some 404 \<or>
        (if truthy (error_code e0) then error_code e0 else code e0) = Some (js ''model_not_found'') \<or>
        regex_test (literal ''model'' @ [DotStar] @ literal ''not found'') (message_of e0) \<or>
        regex_test (literal ''does not exist'') (message_of e0)"
    by (simp add: isModelError_def code_of_def js_or_def model_not_found_re_def
        does_not_exist_re_def Let_def)
  have msg: "message_of e0 =
       (if truthy (error_message e0) then the (error_message e0)
        else if truthy (message e0) then the (message e0) else [])"
    by (auto simp: message_of_def js_or_def truthy_def split: option.splits)
  have loop: "(Suc i < length tried \<longleftrightarrow> isModelError e \<and> Suc i < length models) \<and>
        (Suc i < length tried \<longrightarrow> fst (tried ! Suc i) = models ! Suc i) \<and>
        (\<not> isModelError e \<longrightarrow> Suc i = length tried \<and> res = Inl e)"
    if i: "i < length tried" and f: "snd (tried ! i) = Inl e" for i e
  proof (cases "Suc i < length tried")
    case True
    then have "tried ! i \<in> set (butlast tried)"
      by (metis Suc_lessD in_set_conv_nth length_butlast less_diff_conv nth_butlast Suc_eq_plus1)
    with D(3) f have me: "isModelError e" by (auto simp: model_failure_def)
    have "map fst tried ! Suc i = take (length tried) models ! Suc i"
      using D(2) by simp
    with True have "fst (tried ! Suc i) = models ! Suc i" by simp
    with True me D(1) show ?thesis by auto
  next
    case False
    with i have last: "Suc i = length tried" by simp
    then have ne: "tried \<noteq> []" by auto
    from last ne have l: "last tried = tried ! i"
      by (metis diff_Suc_1 last_conv_nth)
    with f have sl: "snd (last tried) = Inl e" by simp
    from D(5) [OF ne sl] have r: "res = Inl e" .
    have "isModelError e \<Longrightarrow> length tried = length models"
      using D(6) [OF ne sl] .
    with last r False show ?thesis by auto
  qed
  from cls msg loop show ?thesis by blast
qed

lemma sample_dispatch_thrown:
  "dispatch sample_client () True [js ''gpt-4o-mini'', js ''gpt-4.1-mini'', js ''gpt-4o''] 0 =
     (Inl \<lparr>status = Some 429, error_code = Some (js ''rate_limit_exceeded''),
           error_message = Some (js ''Rate limit reached''), code = None, message = None\<rparr>,
      [(js ''gpt-4o-mini'',
        Inl \<lparr>status = Some 404, error_code = None, error_message = None, code = None,
             message = None\<rparr>),
       (js ''gpt-4.1-mini'',
        Inl \<lparr>status = Some 429, error_code = Some (js ''rate_limit_exceeded''),
             error_message = Some (js ''Rate limit reached''), code = None, message = None\<rparr>)],
      2)"
  by code_simp

theorem C1_fallback_trigger_witness:
  "dispatch sample_client () True [js ''gpt-4o-mini'', js ''gpt-4.1-mini'', js ''gpt-4o''] 0 =
     (Inl \<lparr>status = Some 429, error_code = Some (js ''rate_limit_exceeded''),
           error_message = Some (js ''Rate limit reached''), code = None, message = None\<rparr>,
      [(js ''gpt-4o-mini'',
        Inl \<lparr>status = Some 404, error_code = None, error_message = None, code = None,
             message = None\<rparr>),
       (js ''gpt-4.1-mini'',
        Inl \<lparr>status = Some 429, error_code = Some (js ''rate_limit_exceeded''),
             error_message = Some (js ''Rate limit reached''), code = None, message = None\<rparr>)],
      2) \<and>
   isModelError \<lparr>status = Some 404, error_code = None, error_message = None, code = None,
                 message = None\<rparr> \<and>
   \<not> isModelError \<lparr>status = Some 429, error_code = Some (js ''rate_limit_exceeded''),
           error_message = Some (js ''Rate limit reached''), code = None, message = None\<rparr>"
proof -
  note h = sample_dispatch_thrown
  let ?e404 = "\<lparr>status = Some 404, error_code = None, error_message = None, code = None,
                 message = None\<rparr>"
  let ?e429 = "\<lparr>status = Some 429, error_code = Some (js ''rate_limit_exceeded''),
           error_message = Some (js ''Rate limit reached''), code = None, message = None\<rparr>"
  let ?tried = "[(js ''gpt-4o-mini'', Inl ?e404), (js ''gpt-4.1-mini'', Inl ?e429)]"
  note T = C1_fallback_trigger [OF h, THEN conjunct2, THEN conjunct2, rule_format]
  have p0: "0 < length ?tried \<and> snd (?tried ! 0) = Inl ?e404" by simp
  have p1: "1 < length ?tried \<and> snd (?tried ! 1) = Inl ?e429" by simp
  from T [OF p0, THEN conjunct1] have a: "isModelError ?e404" by simp
  from T [OF p1, THEN conjunct1] have b: "\<not> isModelError ?e429" by simp
  from h a b show ?thesis by (intro conjI)
qed

section \<open>Properties of the auth guard\<close>

lemma bearer_split: "take 7 (js ''Bearer '' @ t) = js ''Bearer '' \<and> drop 7 (js ''Bearer '' @ t) = t"
  by (simp add: js_def)

lemma getAuthToken_bearer:
  "authorization req = Some (js ''Bearer '' @ t) \<Longrightarrow> getAuthToken req = Some t"
  by (simp add: getAuthToken_def js_or_def truthy_def Let_def bearer_split) (simp add: js_def)

lemma getAuthToken_no_match:
  assumes "authorization req \<noteq> Some (js ''Bearer '' @ secret)"
    and "x_sync_token req \<noteq> Some secret"
  shows "getAuthToken req \<noteq> Some secret"
proof
  assume g: "getAuthToken req = Some secret"
  define header where "header = (case js_or (authorization req) (Some []) of None \<Rightarrow> [] | Some h \<Rightarrow> h)"
  show False
  proof (cases "take 7 header = js ''Bearer ''")
    case True
    with g have "drop 7 header = secret"
      by (simp add: getAuthToken_def header_def Let_def)
    with True have h: "header = js ''Bearer '' @ secret"
      by (metis append_take_drop_id)
    then have "header \<noteq> []" by (simp add: js_def)
    then have "authorization req = Some header"
      unfolding header_def js_or_def truthy_def by (auto split: option.splits if_splits)
    with h assms(1) show False by simp
  next
    case False
    with g have "x_sync_token req = Some secret"
      by (simp add: getAuthToken_def header_def Let_def)
    with assms(2) show False by simp
  qed
qed

lemma requireSyncAuth_reject:
  assumes "secret \<noteq> []"
    and "authorization req \<noteq> Some (js ''Bearer '' @ secret)"
    and "x_sync_token req \<noteq> Some secret"
  shows "requireSyncAuth (Some secret) req handler w = (json_error 401 ''Unauthorized'', w)"
  using getAuthToken_no_match [OF assms(2,3)] assms(1)
  by (simp add: requireSyncAuth_def truthy_def Let_def)

lemma requireSyncAuth_bearer:
  assumes "secret \<noteq> []" and "authorization req = Some (js ''Bearer '' @ secret)"
  shows "requireSyncAuth (Some secret) req handler w = handler w"
  using getAuthToken_bearer [OF assms(2)] assms(1)
  by (simp add: requireSyncAuth_def truthy_def Let_def)

lemma requireSyncAuth_open:
  "\<not> truthy secret \<Longrightarrow> requireSyncAuth secret req handler w = handler w"
  by (simp add: requireSyncAuth_def)

text \<open>
  Claim C6. With a secret configured, a request to \<open>GET /api/sync\<close>,
  \<open>POST /api/sync\<close> or \<open>POST /api/upload\<close> whose Authorization header is not
  \<open>Bearer\<close> followed by the secret and whose \<open>x-sync-token\<close> header is not the
  secret is answered 401, and the state of the files is what it was: the handler has not
  run. A request whose Authorization header is \<open>Bearer\<close> followed by the secret gets
  what the handler gives. With no secret, or an empty one, every request gets what the
  handler gives.
\<close>

theorem C6_auth_gate:
  "(syncToken cfg = Some secret \<and> secret \<noteq> [] \<and>
      authorization req \<noteq> Some (js ''Bearer '' @ secret) \<and> x_sync_token req \<noteq> Some secret \<longrightarrow>
        api_sync_get cfg req w = (json_error 401 ''Unauthorized'', w) \<and>
        api_sync_post cfg numberText now req w = (json_error 401 ''Unauthorized'', w) \<and>
        api_upload_post cfg decode numberText now req w = (json_error 401 ''Unauthorized'', w)) \<and>
   (syncToken cfg = Some secret \<and> secret \<noteq> [] \<and>
      authorization req = Some (js ''Bearer '' @ secret) \<longrightarrow>
        api_sync_get cfg req w = get_sync w \<and>
        api_sync_post cfg numberText now req w = post_sync numberText now req w \<and>
        api_upload_post cfg decode numberText now req w = post_upload cfg decode numberText now req w) \<and>
   (syncToken cfg = None \<or> syncToken cfg = Some [] \<longrightarrow>
        api_sync_get cfg req w = get_sync w \<and>
        api_sync_post cfg numberText now req w = post_sync numberText now req w \<and>
        api_upload_post cfg decode numberText now req w = post_upload cfg decode numberText now req w)"
proof (intro conjI impI)
  assume a: "syncToken cfg = Some secret \<and> secret \<noteq> [] \<and>
      authorization req \<noteq> Some (js ''Bearer '' @ secret) \<and> x_sync_token req \<noteq> Some secret"
  then have r: "requireSyncAuth (syncToken cfg) req handler w = (json_error 401 ''Unauthorized'', w)" for handler
    using requireSyncAuth_reject [of secret req handler w] by simp
  show "api_sync_get cfg req w = (json_error 401 ''Unauthorized'', w)"
    unfolding api_sync_get_def by (rule r)
  show "api_sync_post cfg numberText now req w = (json_error 401 ''Unauthorized'', w)"
    unfolding api_sync_post_def by (rule r)
  show "api_upload_post cfg decode numberText now req w = (json_error 401 ''Unauthorized'', w)"
    unfolding api_upload_post_def by (rule r)
next
  assume a: "syncToken cfg = Some secret \<and> secret \<noteq> [] \<and>
      authorization req = Some (js ''Bearer '' @ secret)"
  then have r: "requireSyncAuth (syncToken cfg) req handler w = handler w" for handler
    using requireSyncAuth_bearer [of secret req handler w] by simp
  show "api_sync_get cfg req w = get_sync w"
    unfolding api_sync_get_def by (rule r)
  show "api_sync_post cfg numberText now req w = post_sync numberText now req w"
    unfolding api_sync_post_def by (rule r)
  show "api_upload_post cfg decode numberText now req w = post_upload cfg decode numberText now req w"
    unfolding api_upload_post_def by (rule r)
next
  assume "syncToken cfg = None \<or> syncToken cfg = Some []"
  then have "\<not> truthy (syncToken cfg)" by (auto simp: truthy_def)
  then have r: "requireSyncAuth (syncToken cfg) req handler w = handler w" for handler
    by (rule requireSyncAuth_open)
  show "api_sync_get cfg req w = get_sync w"
    unfolding api_sync_get_def by (rule r)
  show "api_sync_post cfg numberText now req w = post_sync numberText now req w"
    unfolding api_sync_post_def by (rule r)
  show "api_upload_post cfg decode numberText now req w = post_upload cfg decode numberText now req w"
    unfolding api_upload_post_def by (rule r)
qed

theorem C6_auth_gate_witness:
  "api_sync_post sample_config sample_numberText 1700000000000
      \<lparr>authorization = None, x_sync_token = None, body = Some (JObj [])\<rparr> empty_world =
     (json_error 401 ''Unauthorized'', empty_world) \<and>
   api_upload_post sample_config sample_decode sample_numberText 1700000000000
      \<lparr>authorization = None, x_sync_token = None, body = Some (JObj [])\<rparr> empty_world =
     (json_error 401 ''Unauthorized'', empty_world) \<and>
   api_sync_get sample_config
      \<lparr>authorization = Some (js ''Bearer s3cret''), x_sync_token = None, body = None\<rparr> empty_world =
     get_sync empty_world"
proof -
  let ?anon = "\<lparr>authorization = None, x_sync_token = None, body = Some (JObj [])\<rparr>"
  let ?bearer = "\<lparr>authorization = Some (js ''Bearer s3cret''), x_sync_token = None, body = None\<rparr>"
  have p1: "syncToken sample_config = Some (js ''s3cret'') \<and> js ''s3cret'' \<noteq> [] \<and>
      authorization ?anon \<noteq> Some (js ''Bearer '' @ js ''s3cret'') \<and>
      x_sync_token ?anon \<noteq> Some (js ''s3cret'')"
    by (simp add: sample_config_def js_def)
  have p2: "syncToken sample_config = Some (js ''s3cret'') \<and> js ''s3cret'' \<noteq> [] \<and>
      authorization ?bearer = Some (js ''Bearer '' @ js ''s3cret'')"
    by (simp add: sample_config_def js_def)
  note R = C6_auth_gate [of sample_config "js ''s3cret''" ?anon empty_world sample_numberText
      1700000000000 sample_decode, THEN conjunct1, rule_format, OF p1]
  note B = C6_auth_gate [of sample_config "js ''s3cret''" ?bearer empty_world sample_numberText
      1700000000000 sample_decode, THEN conjunct2, THEN conjunct1, rule_format, OF p2]
  from R [THEN conjunct2, THEN conjunct1] R [THEN conjunct2, THEN conjunct2] B [THEN conjunct1]
  show ?thesis by (intro conjI)
qed

section \<open>Properties of the upload handler\<close>

lemma digit_is_digit: "d < 10 \<Longrightarrow> is_digit (digit d)"
proof -
  assume "d < 10"
  then have "d \<in> {0, 1, 2, 3, 4, 5, 6, 7, 8, 9}" by auto
  then show ?thesis by (auto simp: digit_def is_digit_def)
qed

lemma decimal_digits: "list_all is_digit (decimal n)"
proof (induction n rule: decimal.induct)
  case (1 n)
  show ?case
  proof (cases "n < 10")
    case True
    then show ?thesis by (subst decimal.simps) (simp add: digit_is_digit)
  next
    case False
    with 1 show ?thesis by (subst decimal.simps) (simp add: digit_is_digit)
  qed
qed

lemma decimal_nonempty: "decimal n \<noteq> []"
  by (subst decimal.simps) simp

lemma is_digit_safe: "is_digit c \<Longrightarrow> safe_char c"
  by (simp add: is_digit_def safe_char_def word_char_def)

lemma is_digit_props: "is_digit c \<Longrightarrow> c \<noteq> 0x2D \<and> c \<noteq> 0x2F \<and> c \<noteq> 0x2E"
  by (auto simp: is_digit_def)

lemma sanitize_safe: "list_all safe_char (sanitize s)"
  by (induction s) (simp_all add: sanitize_def safe_char_def word_char_def)

lemma safe_no_slash: "safe_char c \<Longrightarrow> c \<noteq> 0x2F"
  by (auto simp: safe_char_def word_char_def)

lemma digit_value_digit: "d < 10 \<Longrightarrow> digit_value (digit d) = d"
proof -
  assume "d < 10"
  then have "d \<in> {0, 1, 2, 3, 4, 5, 6, 7, 8, 9}" by auto
  then show ?thesis by (auto simp: digit_def digit_value_def)
qed

lemma decimal_value: "foldl (\<lambda>a c. 10 * a + digit_value c) 0 (decimal n) = n"
proof (induction n rule: decimal.induct)
  case (1 n)
  show ?case
  proof (cases "n < 10")
    case True
    then show ?thesis by (subst decimal.simps) (simp add: digit_value_digit)
  next
    case False
    with 1 show ?thesis by (subst decimal.simps) (simp add: digit_value_digit)
  qed
qed

lemma decimal_inj: "decimal m = decimal n \<Longrightarrow> m = n"
  by (metis decimal_value)

lemma takeWhile_digits:
  "list_all is_digit ds \<Longrightarrow> takeWhile is_digit (ds @ 0x2D # s) = ds \<and> dropWhile is_digit (ds @ 0x2D # s) = 0x2D # s"
  by (induction ds) (simp_all add: is_digit_def)

lemma stored_name_inj:
  assumes "decimal m @ js ''-'' @ s = decimal n @ js ''-'' @ t"
  shows "m = n \<and> s = t"
proof -
  have e: "decimal m @ 0x2D # s = decimal n @ 0x2D # t"
    using assms by (simp add: js_def)
  have "takeWhile is_digit (decimal m @ 0x2D # s) = decimal m"
    using takeWhile_digits [OF decimal_digits] by blast
  moreover have "takeWhile is_digit (decimal n @ 0x2D # t) = decimal n"
    using takeWhile_digits [OF decimal_digits] by blast
  ultimately have d: "decimal m = decimal n" using e by simp
  with e have "s = t" by simp
  with d decimal_inj show ?thesis by blast
qed

lemma split_on_no_sep: "sep \<notin> set s \<Longrightarrow> split_on sep s = [s]"
  by (induction s) auto

lemma path_join_child:
  assumes "0x2F \<notin> set name" and "name \<noteq> []" and "name \<noteq> js ''.''" and "name \<noteq> js ''..''"
  shows "path_join dir name = dir @ [name]"
  using assms by (simp add: path_join_def split_on_no_sep)

lemma sanitize_Nil: "sanitize s = [] \<longleftrightarrow> s = []"
  by (simp add: sanitize_def)

lemma safeBase_safe:
  "list_all safe_char (if sanitize s = [] then js ''upload'' else sanitize s)"
  by (simp add: sanitize_safe) (simp add: js_def safe_char_def word_char_def)

lemma uniqueName_props:
  assumes "list_all safe_char base"
  shows "list_all safe_char (decimal now @ js ''-'' @ base)"
    and "0x2F \<notin> set (decimal now @ js ''-'' @ base)"
    and "decimal now @ js ''-'' @ base \<noteq> []"
    and "decimal now @ js ''-'' @ base \<noteq> js ''.''"
    and "decimal now @ js ''-'' @ base \<noteq> js ''..''"
proof -
  have d: "list_all safe_char (decimal now)"
    using decimal_digits [of now] is_digit_safe by (simp add: list_all_iff)
  have m: "list_all safe_char (js ''-'')"
    by (simp add: js_def safe_char_def)
  from d m assms show s: "list_all safe_char (decimal now @ js ''-'' @ base)" by simp
  then show "0x2F \<notin> set (decimal now @ js ''-'' @ base)"
    using safe_no_slash unfolding list_all_iff by blast
  show "decimal now @ js ''-'' @ base \<noteq> []" using decimal_nonempty by simp
  obtain c cs where c: "decimal now = c # cs" using decimal_nonempty [of now] by (cases "decimal now") auto
  with decimal_digits [of now] have "is_digit c" by simp
  then have ne: "c \<noteq> 0x2E" using is_digit_props by blast
  with c show "decimal now @ js ''-'' @ base \<noteq> js ''.''" by (simp add: js_def)
  from c ne show "decimal now @ js ''-'' @ base \<noteq> js ''..''" by (simp add: js_def)
qed

lemma upload_target:
  "path_join dir (decimal now @ js ''-'' @ (if sanitize s = [] then js ''upload'' else sanitize s)) =
     dir @ [decimal now @ js ''-'' @ (if sanitize s = [] then js ''upload'' else sanitize s)]"
  using uniqueName_props [OF safeBase_safe [of s], of now] by (intro path_join_child)

lemma post_upload_accepted:
  assumes b: "body req = Some (JObj kvs)"
    and n: "map_of kvs (js ''fileName'') = Some name" and nt: "js_truthy (Some name)"
    and d: "map_of kvs (js ''data'') = Some (JStr text)" and dt: "text \<noteq> []"
    and sb: "safeBase = (if sanitize (js_String numberText name) = [] then js ''upload''
                         else sanitize (js_String numberText name))"
    and u: "uniqueName = decimal now @ js ''-'' @ safeBase"
  shows "post_upload cfg decode numberText now req w =
     (if write_fault w = NoFault
      then \<lparr>status_code = 200,
            payload = JObj
              [(js ''url'', JStr (js ''/uploads/'' @ uniqueName)),
               (js ''fileName'', JStr safeBase),
               (js ''fileType'',
                (case map_of kvs (js ''fileType'') of
                   None \<Rightarrow> JStr []
                 | Some t \<Rightarrow> if js_truthy (Some t) then t else JStr [])),
               (js ''size'', JNum (decimal (length (decode (base64_part text)))))]\<rparr>
      else json_error 500 ''Failed to store file'',
      w\<lparr>uploads := (uploads w)
          (uploadsDir cfg @ [uniqueName] :=
             snd (writeFileSync (write_fault w) (uploads w (uploadsDir cfg @ [uniqueName]))
                    (decode (base64_part text))))\<rparr>)"
proof -
  have v: "\<not> (\<not> js_truthy (Some name) \<or> \<not> js_truthy (Some (JStr text)) \<or>
             js_typeof (Some (JStr text)) \<noteq> js ''string'')"
    using nt dt by (simp add: js_truthy_def js_typeof_def)
  have t: "path_join (uploadsDir cfg) uniqueName = uploadsDir cfg @ [uniqueName]"
    unfolding u sb by (rule upload_target)
  show ?thesis
    unfolding post_upload_def b
    apply (simp only: option.case json.case get_property_def n d Let_def v if_False prod.case
        sb [symmetric] u [symmetric] t)
    apply (cases "write_fault w")
      apply (simp_all add: writeFileSync_def split: option.splits)
    done
qed

text \<open>
  For an upload with a truthy \<open>fileName\<close> and a non-empty string \<open>data\<close>, the stored
  name is the decimal clock reading, a hyphen, and the text of the name with every
  character outside \<open>[A-Za-z0-9_.-]\<close> replaced by an underscore (\<open>upload\<close> when
  that text is empty). The handler touches no file but the one of that name directly in
  the uploads directory, all characters of the name are in \<open>[A-Za-z0-9_.-]\<close>, and two
  stored names are equal exactly when both the clock readings and the sanitized names
  are equal.
\<close>

lemma upload_filename:
  assumes "body req = Some (JObj kvs)"
    and "map_of kvs (js ''fileName'') = Some name" and "js_truthy (Some name)"
    and "map_of kvs (js ''data'') = Some (JStr text)" and "text \<noteq> []"
    and "safeBase = (if js_String numberText name = [] then js ''upload''
                     else map (\<lambda>c. if safe_char c then c else 0x5F) (js_String numberText name))"
    and "uniqueName = decimal now @ js ''-'' @ safeBase"
  shows "snd (post_upload cfg decode numberText now req w) =
           w\<lparr>uploads := (uploads w)
               (uploadsDir cfg @ [uniqueName] :=
                  snd (writeFileSync (write_fault w) (uploads w (uploadsDir cfg @ [uniqueName]))
                         (decode (base64_part text))))\<rparr> \<and>
         (write_fault w = NoFault \<longrightarrow>
            status_code (fst (post_upload cfg decode numberText now req w)) = 200 \<and>
            get_property (Some (payload (fst (post_upload cfg decode numberText now req w)))) (js ''url'') =
              Some (JStr (js ''/uploads/'' @ uniqueName))) \<and>
         list_all safe_char uniqueName \<and>
         path_join (uploadsDir cfg) uniqueName = uploadsDir cfg @ [uniqueName] \<and>
         (\<forall>now' base'. uniqueName = decimal now' @ js ''-'' @ base' \<longleftrightarrow>
            now' = now \<and> base' = safeBase)"
proof -
  have sb: "safeBase = (if sanitize (js_String numberText name) = [] then js ''upload''
                        else sanitize (js_String numberText name))"
    using assms(6) by (simp add: sanitize_def)
  note eq = post_upload_accepted [OF assms(1-5) sb assms(7), of cfg decode w]
  have safe: "list_all safe_char safeBase"
    unfolding sb by (rule safeBase_safe)
  note props = uniqueName_props [OF safe, of now]
  have "path_join (uploadsDir cfg) uniqueName = uploadsDir cfg @ [uniqueName]"
    unfolding assms(7) using props by (intro path_join_child)
  moreover have "list_all safe_char uniqueName"
    unfolding assms(7) by (rule props(1))
  moreover have "\<forall>now' base'. uniqueName = decimal now' @ js ''-'' @ base' \<longleftrightarrow>
            now' = now \<and> base' = safeBase"
    unfolding assms(7) using stored_name_inj by blast
  moreover have "snd (post_upload cfg decode numberText now req w) =
           w\<lparr>uploads := (uploads w)
               (uploadsDir cfg @ [uniqueName] :=
                  snd (writeFileSync (write_fault w) (uploads w (uploadsDir cfg @ [uniqueName]))
                         (decode (base64_part text))))\<rparr>"
    unfolding eq by simp
  moreover have "write_fault w = NoFault \<longrightarrow>
            status_code (fst (post_upload cfg decode numberText now req w)) = 200 \<and>
            get_property (Some (payload (fst (post_upload cfg decode numberText now req w)))) (js ''url'') =
              Some (JStr (js ''/uploads/'' @ uniqueName))"
    unfolding eq by (simp add: get_property_def)
  ultimately show ?thesis by blast
qed

lemma decimal_sample: "decimal 1700000000000 = js ''1700000000000''"
  by (simp add: decimal.simps digit_def js_def)

lemma upload_sample:
  assumes "write_fault w = NoFault" and "sanitize (js name) = js name" and "name \<noteq> []"
    and "data \<noteq> []"
  shows "status_code (fst (post_upload sample_config sample_decode sample_numberText t (upload_request name data) w)) = 200"
    and "get_property (Some (payload (fst (post_upload sample_config sample_decode sample_numberText t
           (upload_request name data) w)))) (js ''url'') =
         Some (JStr (js ''/uploads/'' @ decimal t @ js ''-'' @ js name))"
    and "write_fault (snd (post_upload sample_config sample_decode sample_numberText t (upload_request name data) w)) = NoFault"
    and "uploads (snd (post_upload sample_config sample_decode sample_numberText t
           (upload_request name data) w)) (uploadsDir sample_config @ [decimal t @ js ''-'' @ js name]) =
         Some (sample_decode (base64_part (js data)))"
proof -
  have b: "body (upload_request name data) =
      Some (JObj [(js ''fileName'', JStr (js name)), (js ''data'', JStr (js data))])"
    by (simp add: upload_request_def)
  have n: "map_of [(js ''fileName'', JStr (js name)), (js ''data'', JStr (js data))] (js ''fileName'')
      = Some (JStr (js name))"
    by simp
  have d: "map_of [(js ''fileName'', JStr (js name)), (js ''data'', JStr (js data))] (js ''data'')
      = Some (JStr (js data))"
    by (simp add: js_def)
  have nt: "js_truthy (Some (JStr (js name)))"
    using assms(3) by (simp add: js_truthy_def js_def)
  have dt: "js data \<noteq> []" using assms(4) by (simp add: js_def)
  have sb: "js name = (if sanitize (js_String sample_numberText (JStr (js name))) = [] then js ''upload''
                       else sanitize (js_String sample_numberText (JStr (js name))))"
    using assms(2,3) by (simp add: js_def)
  note eq = post_upload_accepted [OF b n nt d dt sb refl, of sample_config sample_decode t w]
  show "status_code (fst (post_upload sample_config sample_decode sample_numberText t (upload_request name data) w)) = 200"
    unfolding eq using assms(1) by simp
  show "get_property (Some (payload (fst (post_upload sample_config sample_decode sample_numberText t
           (upload_request name data) w)))) (js ''url'') =
         Some (JStr (js ''/uploads/'' @ decimal t @ js ''-'' @ js name))"
    unfolding eq using assms(1) by (simp add: get_property_def)
  show "write_fault (snd (post_upload sample_config sample_decode sample_numberText t (upload_request name data) w)) = NoFault"
    unfolding eq using assms(1) by simp
  show "uploads (snd (post_upload sample_config sample_decode sample_numberText t
           (upload_request name data) w)) (uploadsDir sample_config @ [decimal t @ js ''-'' @ js name]) =
         Some (sample_decode (base64_part (js data)))"
    unfolding eq using assms(1) by (simp add: writeFileSync_def)
qed

lemma sanitize_a_txt: "sanitize (js ''a.txt'') = js ''a.txt''"
  by (simp add: sanitize_def safe_char_def word_char_def js_def)

lemma base64_part_plain:
  "base64_part (js ''QQ=='') = js ''QQ=='' \<and> base64_part (js ''Qg=='') = js ''Qg==''"
  by code_simp

text \<open>
  Claim C7, at the input where the code departs from it. Two uploads named \<open>a.txt\<close>
  that read the same clock value are both answered 200 with the same stored name,
  \<open>1700000000000-a.txt\<close>: the file that held the data of the first holds the data of
  the second afterwards, so the stored names are not unique and the first asset is
  lost. (The rest of the claim holds: see \<open>upload_filename\<close>.)
\<close>

theorem C7_same_millisecond_collision:
  "status_code (fst (post_upload sample_config sample_decode sample_numberText 1700000000000
      (upload_request ''a.txt'' ''QQ=='') empty_world)) = 200 \<and>
   get_property (Some (payload (fst (post_upload sample_config sample_decode sample_numberText
      1700000000000 (upload_request ''a.txt'' ''QQ=='') empty_world)))) (js ''url'') =
     Some (JStr (js ''/uploads/1700000000000-a.txt'')) \<and>
   uploads (snd (post_upload sample_config sample_decode sample_numberText 1700000000000
      (upload_request ''a.txt'' ''QQ=='') empty_world))
      (uploadsDir sample_config @ [js ''1700000000000-a.txt'']) =
     Some (sample_decode (js ''QQ=='')) \<and>
   status_code (fst (post_upload sample_config sample_decode sample_numberText 1700000000000
      (upload_request ''a.txt'' ''Qg=='')
      (snd (post_upload sample_config sample_decode sample_numberText 1700000000000
         (upload_request ''a.txt'' ''QQ=='') empty_world)))) = 200 \<and>
   get_property (Some (payload (fst (post_upload sample_config sample_decode sample_numberText
      1700000000000 (upload_request ''a.txt'' ''Qg=='')
      (snd (post_upload sample_config sample_decode sample_numberText 1700000000000
         (upload_request ''a.txt'' ''QQ=='') empty_world)))))) (js ''url'') =
     Some (JStr (js ''/uploads/1700000000000-a.txt'')) \<and>
   uploads (snd (post_upload sample_config sample_decode sample_numberText 1700000000000
      (upload_request ''a.txt'' ''Qg=='')
      (snd (post_upload sample_config sample_decode sample_numberText 1700000000000
         (upload_request ''a.txt'' ''QQ=='') empty_world))))
      (uploadsDir sample_config @ [js ''1700000000000-a.txt'']) =
     Some (sample_decode (js ''Qg==''))"
proof -
  have e: "write_fault empty_world = NoFault" by (simp add: empty_world_def)
  have u: "js ''/uploads/'' @ decimal 1700000000000 @ js ''-'' @ js ''a.txt'' =
      js ''/uploads/1700000000000-a.txt''"
    unfolding decimal_sample by (simp add: js_def)
  have f: "decimal 1700000000000 @ js ''-'' @ js ''a.txt'' = js ''1700000000000-a.txt''"
    unfolding decimal_sample by (simp add: js_def)
  have n1: "''a.txt'' \<noteq> []" and n2: "''QQ=='' \<noteq> []" and n3: "''Qg=='' \<noteq> []"
    by simp_all
  note A = upload_sample [OF e sanitize_a_txt n1 n2, of 1700000000000]
  note B = upload_sample [OF A(3) sanitize_a_txt n1 n3, of 1700000000000]
  note A2 = A(2) [unfolded u]
  note B2 = B(2) [unfolded u]
  note A4 = A(4) [unfolded f base64_part_plain [THEN conjunct1]]
  note B4 = B(4) [unfolded f base64_part_plain [THEN conjunct2]]
  show ?thesis
    apply (intro conjI)
         apply (rule A(1))
        apply (rule A2)
       apply (rule A4)
      apply (rule B(1))
     apply (rule B2)
    apply (rule B4)
    done
qed

theorem C7_same_millisecond_collision_witness:
  "get_property (Some (payload (fst (post_upload sample_config sample_decode sample_numberText
      1700000000000 (upload_request ''a.txt'' ''QQ=='') empty_world)))) (js ''url'') =
   get_property (Some (payload (fst (post_upload sample_config sample_decode sample_numberText
      1700000000000 (upload_request ''a.txt'' ''Qg=='')
      (snd (post_upload sample_config sample_decode sample_numberText 1700000000000
         (upload_request ''a.txt'' ''QQ=='') empty_world)))))) (js ''url'')"
proof -
  note T = C7_same_millisecond_collision [THEN conjunct2]
  note first = T [THEN conjunct1]
  note second = T [THEN conjunct2, THEN conjunct2, THEN conjunct2, THEN conjunct1]
  show ?thesis unfolding first second by (rule refl)
qed

text \<open>The name \<open>../../evil:name?.pdf\<close> is stored inside the uploads directory.\<close>

lemma upload_filename_example:
  "list_all safe_char (js ''1700000000000-.._.._evil_name_.pdf'') \<and>
   path_join (uploadsDir sample_config) (js ''1700000000000-.._.._evil_name_.pdf'') =
     uploadsDir sample_config @ [js ''1700000000000-.._.._evil_name_.pdf''] \<and>
   status_code (fst (post_upload sample_config sample_decode sample_numberText 1700000000000
      (upload_request ''../../evil:name?.pdf'' ''QUJD'') empty_world)) = 200 \<and>
   get_property (Some (payload (fst (post_upload sample_config sample_decode sample_numberText 1700000000000
      (upload_request ''../../evil:name?.pdf'' ''QUJD'') empty_world)))) (js ''url'') =
     Some (JStr (js ''/uploads/'' @ js ''1700000000000-.._.._evil_name_.pdf''))"
proof -
  let ?kvs = "[(js ''fileName'', JStr (js ''../../evil:name?.pdf'')), (js ''data'', JStr (js ''QUJD''))]"
  have b: "body (upload_request ''../../evil:name?.pdf'' ''QUJD'') = Some (JObj ?kvs)"
    by (simp add: upload_request_def)
  have n: "map_of ?kvs (js ''fileName'') = Some (JStr (js ''../../evil:name?.pdf''))"
    by simp
  have d: "map_of ?kvs (js ''data'') = Some (JStr (js ''QUJD''))"
    by (simp add: js_def)
  have nt: "js_truthy (Some (JStr (js ''../../evil:name?.pdf'')))"
    by (simp add: js_truthy_def js_def)
  have dt: "js ''QUJD'' \<noteq> []" by (simp add: js_def)
  have sb: "js ''.._.._evil_name_.pdf'' =
      (if js_String sample_numberText (JStr (js ''../../evil:name?.pdf'')) = [] then js ''upload''
       else map (\<lambda>c. if safe_char c then c else 0x5F) (js_String sample_numberText (JStr (js ''../../evil:name?.pdf''))))"
    by (simp add: js_def safe_char_def word_char_def)
  have u: "js ''1700000000000-.._.._evil_name_.pdf'' =
      decimal 1700000000000 @ js ''-'' @ js ''.._.._evil_name_.pdf''"
    unfolding decimal_sample by (simp add: js_def)
  have e: "write_fault empty_world = NoFault" by (simp add: empty_world_def)
  note T = upload_filename [OF b n nt d dt sb u, of sample_config sample_decode empty_world]
  note T2 = T [THEN conjunct2]
  from T2 [THEN conjunct1, rule_format, OF e] T2 [THEN conjunct2, THEN conjunct1]
    T2 [THEN conjunct2, THEN conjunct2, THEN conjunct1]
  show ?thesis by (intro conjI) simp_all
qed

section \<open>Properties of the setup-response parser\<close>

lemma takeWhile_until:
  "c \<notin> set pre \<Longrightarrow> takeWhile (\<lambda>x. x \<noteq> c) (pre @ c # rest) = pre"
  by (induction pre) auto

lemma indexOf_first:
  "c \<notin> set pre \<Longrightarrow> indexOf (pre @ c # rest) c = int (length pre)"
  by (simp add: indexOf_def takeWhile_until)

lemma lastIndexOf_last:
  "c \<notin> set post \<Longrightarrow> lastIndexOf (front @ c # post) c = int (length front)"
proof -
  assume n: "c \<notin> set post"
  have "rev (front @ c # post) = rev post @ c # rev front" by simp
  moreover have "takeWhile (\<lambda>x. x \<noteq> c) (rev post @ c # rev front) = rev post"
    using n by (intro takeWhile_until) simp
  ultimately show ?thesis by (simp add: lastIndexOf_def)
qed

lemma js_slice_middle:
  "js_slice (pre @ mid @ post) (int (length pre)) (int (length pre) + int (length mid)) = mid"
  by (simp add: js_slice_def Let_def min_def)

lemma extractJsonObject_braces:
  assumes "text = pre @ 0x7B # mid @ 0x7D # post" and "0x7B \<notin> set pre" and "0x7D \<notin> set post"
  shows "extractJsonObject text = JSON_parse (0x7B # mid @ [0x7D])"
proof -
  have s: "indexOf text 0x7B = int (length pre)"
    unfolding assms(1) using assms(2) by (rule indexOf_first)
  have "text = (pre @ 0x7B # mid) @ 0x7D # post" using assms(1) by simp
  then have "lastIndexOf text 0x7D = int (length (pre @ 0x7B # mid))"
    using lastIndexOf_last [OF assms(3)] by metis
  then have e: "lastIndexOf text 0x7D = int (length pre) + 1 + int (length mid)" by simp
  have t: "text = pre @ (0x7B # mid @ [0x7D]) @ post" using assms(1) by simp
  have "js_slice text (int (length pre)) (int (length pre) + 1 + int (length mid) + 1)
          = 0x7B # mid @ [0x7D]"
    using js_slice_middle [of pre "0x7B # mid @ [0x7D]" post] unfolding t
    by (simp add: add.assoc)
  then show ?thesis
    unfolding extractJsonObject_def s e Let_def by simp
qed

lemma extractJsonObject_no_braces:
  assumes "\<not> (\<exists>pre mid post. text = pre @ 0x7B # mid @ 0x7D # post \<and> 0x7B \<notin> set pre \<and> 0x7D \<notin> set post)"
  shows "extractJsonObject text = None"
proof (rule ccontr)
  assume "extractJsonObject text \<noteq> None"
  then have c: "\<not> (indexOf text 0x7B < 0 \<or> lastIndexOf text 0x7D < 0 \<or> lastIndexOf text 0x7D \<le> indexOf text 0x7B)"
    unfolding extractJsonObject_def Let_def by (auto split: if_splits)
  then have lb: "0x7B \<in> set text" and rb: "0x7D \<in> set text"
    by (auto simp: indexOf_def lastIndexOf_def split: if_splits)
  from lb obtain pre rest where p: "text = pre @ 0x7B # rest" "0x7B \<notin> set pre"
    by (meson split_list_first)
  from rb obtain front post where q: "text = front @ 0x7D # post" "0x7D \<notin> set post"
    by (meson split_list_last)
  have s: "indexOf text 0x7B = int (length pre)"
    unfolding p(1) using p(2) by (rule indexOf_first)
  have e: "lastIndexOf text 0x7D = int (length front)"
    unfolding q(1) using q(2) by (rule lastIndexOf_last)
  from c s e have lt: "length pre < length front" by simp
  from p(1) q(1) have "pre @ 0x7B # rest = front @ 0x7D # post" by simp
  with lt obtain mid where "front = pre @ 0x7B # mid"
    by (auto simp: append_eq_append_conv2 Cons_eq_append_conv)
  with q have "text = pre @ 0x7B # mid @ 0x7D # post" by simp
  with p(2) q(2) assms show False by blast
qed

lemma finish_value_bottom:
  assumes "st \<noteq> []" and "object_frame (last st)" and "finish_value v st = Some s'"
  shows "bottom_object s'"
proof (cases st)
  case Nil
  with assms(1) show ?thesis by simp
next
  case (Cons f rest)
  show ?thesis
  proof (cases f)
    case (InArray xs)
    with Cons assms show ?thesis
      by (cases "rest = []") (auto simp: bottom_object_def)
  next
    case (InObject kvs key)
    with Cons assms show ?thesis
      by (cases key) (auto simp: bottom_object_def)
  qed
qed

lemma close_frame_bottom:
  assumes "st \<noteq> []" and "object_frame (last st)" and "close_frame t st = Some s'"
  shows "bottom_object s'"
proof (cases st)
  case Nil
  with assms(1) show ?thesis by simp
next
  case (Cons f rest)
  show ?thesis
  proof (cases "rest = []")
    case True
    with Cons assms(2) obtain kvs key where f: "f = InObject kvs key"
      by (cases f) auto
    with Cons True assms(3) show ?thesis
      by (cases t; cases key) (auto simp: bottom_object_def)
  next
    case False
    with Cons assms(2) have l: "object_frame (last rest)" by simp
    from Cons assms(3) obtain v where "finish_value v rest = Some s'"
      by (cases t; cases f) (auto split: option.splits elim: close_frame.elims)
    from finish_value_bottom [OF False l this] show ?thesis .
  qed
qed

lemma start_value_bottom:
  assumes "st \<noteq> []" and "object_frame (last st)" and "start_value t st = Some s'"
  shows "bottom_object s'"
proof (cases t)
  case (Atom v)
  with assms finish_value_bottom show ?thesis by simp
qed (use assms in \<open>auto simp: bottom_object_def\<close>)

lemma read_key_bottom:
  assumes "st \<noteq> []" and "object_frame (last st)" and "read_key t st = Some s'"
  shows "bottom_object s'"
  using assms by (auto simp: bottom_object_def elim!: read_key.elims split: if_splits)

lemma step_bottom:
  assumes "bottom_object s" and "step s t = Some s'"
  shows "bottom_object s'"
proof (cases s)
  case (Pair st e)
  show ?thesis
  proof (cases "st = []")
    case True
    with Pair assms(1) obtain kvs where "e = End (JObj kvs)"
      by (auto simp: bottom_object_def elim: object_end.elims)
    with Pair assms(2) show ?thesis by simp
  next
    case False
    with Pair assms(1) have l: "object_frame (last st)" by (simp add: bottom_object_def)
    note sv = start_value_bottom [OF False l]
    note cf = close_frame_bottom [OF False l]
    note rk = read_key_bottom [OF False l]
    from Pair assms(2) False l show ?thesis
      by (cases e) (auto simp: bottom_object_def split: if_splits list.splits frame.splits
          dest: sv cf rk)
  qed
qed

lemma run_bottom: "bottom_object s \<Longrightarrow> run s ts = Some s' \<Longrightarrow> bottom_object s'"
proof (induction ts arbitrary: s)
  case Nil
  then show ?case by simp
next
  case (Cons t ts)
  then show ?case by (auto split: option.splits dest: step_bottom)
qed

lemma tokenize_brace: "tokenize (0x7B # s) = map_option ((#) LBrace) (tokenize s)"
  by (simp add: json_space_def)

lemma JSON_parse_object:
  assumes "JSON_parse (0x7B # s) = Some v"
  shows "\<exists>kvs. v = JObj kvs"
proof -
  from assms obtain ts where ts: "tokenize s = Some ts"
    and r: "run ([], AnyValue) (LBrace # ts) = Some ([], End v)"
    unfolding JSON_parse_def tokenize_brace
    by (auto split: option.splits list.splits expect.splits)
  from r have "run ([InObject [] None], KeyOrClose) ts = Some ([], End v)" by simp
  moreover have "bottom_object ([InObject [] None], KeyOrClose)" by (simp add: bottom_object_def)
  ultimately have "bottom_object ([], End v)" by (rule run_bottom [rotated])
  then show ?thesis by (auto simp: bottom_object_def elim: object_end.elims)
qed

lemma extractJsonObject_object:
  assumes "extractJsonObject text = Some v"
  shows "\<exists>kvs. v = JObj kvs"
proof -
  from assms extractJsonObject_no_braces [of "text"]
  obtain pre mid post where "text = pre @ 0x7B # mid @ 0x7D # post"
    and "0x7B \<notin> set pre" and "0x7D \<notin> set post"
    by fastforce
  from extractJsonObject_braces [OF this] assms
  have "JSON_parse (0x7B # mid @ [0x7D]) = Some v" by simp
  then show ?thesis by (rule JSON_parse_object)
qed

lemma extractJsonObject_empty: "extractJsonObject [] = None"
  by (simp add: extractJsonObject_def indexOf_def)

lemma parsePhaseSetup_None:
  "extractJsonObject text = None \<Longrightarrow> parsePhaseSetup text = None"
  by (simp add: parsePhaseSetup_def)

lemma parsePhaseSetup_object:
  assumes "extractJsonObject text = Some (JObj kvs)"
  shows "parsePhaseSetup text = Some
     \<lparr>setup_title = pickString (JObj kvs) (js ''title''),
      setup_range = pickString (JObj kvs) (js ''range''),
      setup_summary = pickString (JObj kvs) (js ''summary''),
      subphaseTitle = pickString (JObj kvs) (js ''subphaseTitle''),
      subphaseRange = pickString (JObj kvs) (js ''subphaseRange''),
      subphasePrompt = pickString (JObj kvs) (js ''subphasePrompt''),
      themes = pickList (JObj kvs) (js ''themes''),
      questions = pickList (JObj kvs) (js ''questions'')\<rparr>"
proof -
  have "text \<noteq> []" using assms extractJsonObject_empty by auto
  then show ?thesis
    using assms by (simp add: parsePhaseSetup_def js_truthy_def js_typeof_def)
qed

lemma setup_example:
  "parsePhaseSetup
     (js ''Sure! {\"title\": \"Reform Era\", \"themes\": [\"law\", 42, \" politics \"]}'') =
   Some \<lparr>setup_title = Some (js ''Reform Era''), setup_range = None, setup_summary = None,
         subphaseTitle = None, subphaseRange = None, subphasePrompt = None,
         themes = Some [js ''law'', js ''politics''], questions = None\<rparr>"
  by code_simp

text \<open>
  Claim C8. When the text has an opening brace and, after the first one, a closing brace,
  \<open>extractJsonObject\<close> is \<open>JSON.parse\<close> of the text from the first opening brace
  to the last closing brace; otherwise it is \<open>null\<close>. \<open>parsePhaseSetup\<close> is
  \<open>null\<close> when \<open>extractJsonObject\<close> is (no brace pair, or a parse failure); otherwise
  the value parsed is an object and the result has, for each string field, the trimmed
  string when the property is a string and nothing otherwise, and for \<open>themes\<close> and
  \<open>questions\<close>, when the property is an array, its string entries trimmed, without
  those that are then empty, and nothing otherwise. No case raises an error. The text
  \<open>Sure! {"title": "Reform Era", "themes": ["law", 42, " politics "]}\<close> gives the
  title \<open>Reform Era\<close> and the themes \<open>law\<close> and \<open>politics\<close>.
\<close>

theorem C8_setup_parser:
  "(\<forall>pre mid post.
      text = pre @ 0x7B # mid @ 0x7D # post \<and> 0x7B \<notin> set pre \<and> 0x7D \<notin> set post \<longrightarrow>
      extractJsonObject text = JSON_parse (0x7B # mid @ [0x7D])) \<and>
   (\<not> (\<exists>pre mid post.
      text = pre @ 0x7B # mid @ 0x7D # post \<and> 0x7B \<notin> set pre \<and> 0x7D \<notin> set post) \<longrightarrow>
      extractJsonObject text = None) \<and>
   (extractJsonObject text = None \<longrightarrow> parsePhaseSetup text = None) \<and>
   (\<forall>v. extractJsonObject text = Some v \<longrightarrow>
      (\<exists>kvs. v = JObj kvs \<and>
         parsePhaseSetup text = Some
           \<lparr>setup_title = pickString v (js ''title''),
            setup_range = pickString v (js ''range''),
            setup_summary = pickString v (js ''summary''),
            subphaseTitle = pickString v (js ''subphaseTitle''),
            subphaseRange = pickString v (js ''subphaseRange''),
            subphasePrompt = pickString v (js ''subphasePrompt''),
            themes = pickList v (js ''themes''),
            questions = pickList v (js ''questions'')\<rparr>)) \<and>
   (\<forall>kvs key. pickString (JObj kvs) key =
      (case map_of kvs key of Some (JStr s) \<Rightarrow> Some (js_trim s) | _ \<Rightarrow> None)) \<and>
   (\<forall>kvs key. pickList (JObj kvs) key =
      (case map_of kvs key of
         Some (JArr items) \<Rightarrow>
           Some (filter (\<lambda>s. s \<noteq> [])
                  (map js_trim (concat (map (\<lambda>item. case item of JStr s \<Rightarrow> [s] | _ \<Rightarrow> []) items))))
       | _ \<Rightarrow> None)) \<and>
   parsePhaseSetup
     (js ''Sure! {\"title\": \"Reform Era\", \"themes\": [\"law\", 42, \" politics \"]}'') =
   Some \<lparr>setup_title = Some (js ''Reform Era''), setup_range = None, setup_summary = None,
         subphaseTitle = None, subphaseRange = None, subphasePrompt = None,
         themes = Some [js ''law'', js ''politics''], questions = None\<rparr>"
proof -
  have a: "\<forall>pre mid post.
      text = pre @ 0x7B # mid @ 0x7D # post \<and> 0x7B \<notin> set pre \<and> 0x7D \<notin> set post \<longrightarrow>
      extractJsonObject text = JSON_parse (0x7B # mid @ [0x7D])"
    using extractJsonObject_braces by blast
  have b: "\<not> (\<exists>pre mid post.
      text = pre @ 0x7B # mid @ 0x7D # post \<and> 0x7B \<notin> set pre \<and> 0x7D \<notin> set post) \<longrightarrow>
      extractJsonObject text = None"
    using extractJsonObject_no_braces by blast
  have c: "extractJsonObject text = None \<longrightarrow> parsePhaseSetup text = None"
    using parsePhaseSetup_None by blast
  have d: "\<forall>v. extractJsonObject text = Some v \<longrightarrow>
      (\<exists>kvs. v = JObj kvs \<and>
         parsePhaseSetup text = Some
           \<lparr>setup_title = pickString v (js ''title''),
            setup_range = pickString v (js ''range''),
            setup_summary = pickString v (js ''summary''),
            subphaseTitle = pickString v (js ''subphaseTitle''),
            subphaseRange = pickString v (js ''subphaseRange''),
            subphasePrompt = pickString v (js ''subphasePrompt''),
            themes = pickList v (js ''themes''),
            questions = pickList v (js ''questions'')\<rparr>)"
  proof (intro allI impI)
    fix v assume e: "extractJsonObject text = Some v"
    then obtain kvs where v: "v = JObj kvs" using extractJsonObject_object by blast
    with e parsePhaseSetup_object [of "text" kvs]
    show "\<exists>kvs. v = JObj kvs \<and>
         parsePhaseSetup text = Some
           \<lparr>setup_title = pickString v (js ''title''),
            setup_range = pickString v (js ''range''),
            setup_summary = pickString v (js ''summary''),
            subphaseTitle = pickString v (js ''subphaseTitle''),
            subphaseRange = pickString v (js ''subphaseRange''),
            subphasePrompt = pickString v (js ''subphasePrompt''),
            themes = pickList v (js ''themes''),
            questions = pickList v (js ''questions'')\<rparr>"
      by simp
  qed
  have e: "\<forall>kvs key. pickString (JObj kvs) key =
      (case map_of kvs key of Some (JStr s) \<Rightarrow> Some (js_trim s) | _ \<Rightarrow> None)"
    by (simp add: pickString_def get_property_def)
  have f: "\<forall>kvs key. pickList (JObj kvs) key =
      (case map_of kvs key of
         Some (JArr items) \<Rightarrow>
           Some (filter (\<lambda>s. s \<noteq> [])
                  (map js_trim (concat (map (\<lambda>item. case item of JStr s \<Rightarrow> [s] | _ \<Rightarrow> []) items))))
       | _ \<Rightarrow> None)"
    by (simp add: pickList_def get_property_def)
  from a b c d e f setup_example show ?thesis by (intro conjI)
qed

theorem C8_setup_parser_witness:
  "extractJsonObject (js ''Sure! {\"title\": \"Reform Era\"} Done.'') =
     JSON_parse (js ''{\"title\": \"Reform Era\"}'') \<and>
   extractJsonObject (js ''} no object {'') = None \<and>
   parsePhaseSetup (js ''} no object {'') = None"
proof -
  have p: "js ''Sure! {\"title\": \"Reform Era\"} Done.'' =
      js ''Sure! '' @ 0x7B # js ''\"title\": \"Reform Era\"'' @ 0x7D # js '' Done.'' \<and>
      0x7B \<notin> set (js ''Sure! '') \<and> 0x7D \<notin> set (js '' Done.'')"
    by (simp add: js_def)
  have q: "0x7B # js ''\"title\": \"Reform Era\"'' @ [0x7D] = js ''{\"title\": \"Reform Era\"}''"
    by (simp add: js_def)
  have n: "extractJsonObject (js ''} no object {'') = None" by code_simp
  note A = C8_setup_parser [of "js ''Sure! {\"title\": \"Reform Era\"} Done.''",
      THEN conjunct1, rule_format, OF p, unfolded q]
  note B = C8_setup_parser [of "js ''} no object {''", THEN conjunct2, THEN conjunct2,
      THEN conjunct1, rule_format, OF n]
  from A n B show ?thesis by (intro conjI)
qed

end
